theory Spec2Isabelle
  imports Complex_Main "HOL-Library.Word"
begin

section \<open>Go values\<close>

subsection \<open>Errors\<close>

text \<open>
  Go errors are values. \<open>Canceled\<close> and \<open>DeadlineExceeded\<close> are the two sentinels of
  package context, \<open>ErrNoRows\<close> is the sentinel of database/sql, \<open>ErrorString\<close> is an
  error made from a message alone, \<open>Errorf msg e\<close> is \<open>fmt.Errorf(msg + ": %w", e)\<close>
  and \<open>FailedAfter n e\<close> is \<open>fmt.Errorf("failed after %d attempts: %w", n, e)\<close>, whose
  wrapped error may be nil. A function returning \<open>error\<close> returns \<open>error option\<close>, with
  \<open>None\<close> for nil. Go's \<open>==\<close> on errors is identity, here equality of the datatype:
  a wrapped sentinel is not the sentinel.
\<close>

datatype error =
    Canceled
  | DeadlineExceeded
  | ErrNoRows
  | ErrorString string
  | Errorf string error
  | FailedAfter int "error option"

text \<open>
  The failure of a database or broker call, as the environment of a run supplies it: an
  error of the driver (with its message) or the error of the passed context. It is never
  \<open>sql.ErrNoRows\<close>, which a query returns only for an empty result.
\<close>

datatype fault = Driver string | ContextCanceled | ContextDeadlineExceeded

fun fault_error :: "fault \<Rightarrow> error" where
  "fault_error (Driver m) = ErrorString m"
| "fault_error ContextCanceled = Canceled"
| "fault_error ContextDeadlineExceeded = DeadlineExceeded"

subsection \<open>float64\<close>

text \<open>
  A float64 is a finite binary64 number (kept as the rational it denotes), an infinity or
  NaN. The sign of zero is not kept: no operation of the modelled code tells the two
  zeros apart. \<open>round64\<close> is rounding to nearest, ties to even, with 53 significant
  bits, gradual underflow below \<open>2^-1022\<close> and overflow to infinity when the rounded
  magnitude reaches \<open>2^1024\<close> (binade 1023 with the significand rounded up to \<open>2^53\<close>,
  or any higher binade).
\<close>

datatype float64 = Finite rat | PInf | NInf | NaN

function flog2 :: "int \<Rightarrow> int" where
  "flog2 n = (if n \<le> 1 then 0 else 1 + flog2 (n div 2))"
  by pat_completeness auto
termination
  by (relation "measure nat") auto

declare flog2.simps [simp del]

definition clog2 :: "int \<Rightarrow> int" where
  "clog2 n = (if n \<le> 1 then 0 else 1 + flog2 (n - 1))"

definition binade :: "rat \<Rightarrow> int" where
  \<comment> \<open>for \<open>0 < a\<close>: the exponent \<open>e\<close> with \<open>2^e \<le> a < 2^(e+1)\<close>\<close>
  "binade a = (if 1 \<le> a then flog2 \<lfloor>a\<rfloor> else - clog2 \<lceil>1 / a\<rceil>)"

definition pow2 :: "int \<Rightarrow> rat" where
  "pow2 k = (if 0 \<le> k then 2 ^ nat k else 1 / 2 ^ nat (- k))"

definition round_even :: "rat \<Rightarrow> int" where
  "round_even x =
     (let f = \<lfloor>x\<rfloor>; d = x - of_int f
      in if d < 1 / 2 then f else if 1 / 2 < d then f + 1 else if even f then f else f + 1)"

definition round64 :: "rat \<Rightarrow> float64" where
  "round64 x =
     (if x = 0 then Finite 0
      else let a = \<bar>x\<bar>;
               e = binade a;
               q = pow2 (max e (- 1022) - 52);
               m = round_even (a / q)
           in if 1023 < e \<or> (e = 1023 \<and> 2 ^ 53 \<le> m) then (if 0 < x then PInf else NInf)
              else Finite (of_int (if 0 < x then m else - m) * q))"

definition lit :: "rat \<Rightarrow> float64" where
  \<comment> \<open>a decimal constant of the source, converted to float64\<close>
  "lit x = round64 x"

fun f64_mul :: "float64 \<Rightarrow> float64 \<Rightarrow> float64" where
  "f64_mul NaN y = NaN"
| "f64_mul x NaN = NaN"
| "f64_mul (Finite a) (Finite b) = round64 (a * b)"
| "f64_mul (Finite a) PInf = (if a = 0 then NaN else if 0 < a then PInf else NInf)"
| "f64_mul (Finite a) NInf = (if a = 0 then NaN else if 0 < a then NInf else PInf)"
| "f64_mul PInf (Finite b) = (if b = 0 then NaN else if 0 < b then PInf else NInf)"
| "f64_mul NInf (Finite b) = (if b = 0 then NaN else if 0 < b then NInf else PInf)"
| "f64_mul PInf PInf = PInf"
| "f64_mul PInf NInf = NInf"
| "f64_mul NInf PInf = NInf"
| "f64_mul NInf NInf = PInf"

fun f64_div :: "float64 \<Rightarrow> float64 \<Rightarrow> float64" where
  "f64_div NaN y = NaN"
| "f64_div x NaN = NaN"
| "f64_div (Finite a) (Finite b) =
     (if b = 0 then (if a = 0 then NaN else if 0 < a then PInf else NInf)
      else round64 (a / b))"
| "f64_div (Finite a) y = Finite 0"
| "f64_div x (Finite b) = (if (x = PInf) = (0 \<le> b) then PInf else NInf)"
| "f64_div x y = NaN"

fun f64_less :: "float64 \<Rightarrow> float64 \<Rightarrow> bool" where
  "f64_less NaN y = False"
| "f64_less x NaN = False"
| "f64_less (Finite a) (Finite b) = (a < b)"
| "f64_less x NInf = False"
| "f64_less NInf y = True"
| "f64_less PInf y = False"
| "f64_less (Finite a) PInf = True"

definition f64_le :: "float64 \<Rightarrow> float64 \<Rightarrow> bool" where
  "f64_le x y = (x \<noteq> NaN \<and> y \<noteq> NaN \<and> (x = y \<or> f64_less x y))"

definition round_half_away :: "rat \<Rightarrow> int" where
  "round_half_away x = (if 0 \<le> x then \<lfloor>x + 1 / 2\<rfloor> else - \<lfloor>- x + 1 / 2\<rfloor>)"

definition math_Round :: "float64 \<Rightarrow> float64" where
  \<comment> \<open>math.Round: the nearest integer, halves away from zero; infinities and NaN unchanged\<close>
  "math_Round x = (case x of Finite a \<Rightarrow> Finite (of_int (round_half_away a)) | _ \<Rightarrow> x)"

definition math_Pow :: "(float64 \<Rightarrow> float64 \<Rightarrow> float64) \<Rightarrow> float64 \<Rightarrow> float64 \<Rightarrow> float64" where
  \<comment> \<open>math.Pow is library code. Its first documented special cases are written out:
      \<open>Pow(x, 0) = 1\<close>, \<open>Pow(1, y) = 1\<close>, \<open>Pow(x, 1) = x\<close>. Every other value is the
      parameter's.\<close>
  "math_Pow general x y =
     (if y = Finite 0 \<or> x = Finite 1 then Finite 1
      else if y = Finite 1 then x
      else general x y)"

definition int_of_float64 :: "float64 \<Rightarrow> int" where
  \<comment> \<open>the conversion \<open>int(x)\<close> on a 64-bit target: truncation toward zero; a value outside
      int64 gives the smallest int64, as the amd64 instruction does (the language leaves
      that case to the implementation)\<close>
  "int_of_float64 x =
     (case x of
        Finite a \<Rightarrow>
          (let t = (if 0 \<le> a then \<lfloor>a\<rfloor> else \<lceil>a\<rceil>)
           in if - (2 ^ 63) \<le> t \<and> t < 2 ^ 63 then t else - (2 ^ 63))
      | _ \<Rightarrow> - (2 ^ 63))"

definition float64_of_int :: "int \<Rightarrow> float64" where
  "float64_of_int n = round64 (of_int n)"

subsection \<open>Decoded JSON\<close>

text \<open>
  What encoding/json puts into an \<open>interface{}\<close>: nil, bool, float64, string, a slice or
  a \<open>map[string]interface{}\<close>. A map is an association list read with \<open>map_of\<close>; a type
  assertion \<open>m[k].(T)\<close> fails on a missing key and on a value of another type alike.
\<close>

datatype jvalue =
    JNull
  | JBool bool
  | JNumber float64
  | JString string
  | JArray "jvalue list"
  | JObject "(string \<times> jvalue) list"

type_synonym jmap = "(string \<times> jvalue) list"

definition get_float64 :: "jmap \<Rightarrow> string \<Rightarrow> float64 option" where
  "get_float64 m k = (case map_of m k of Some (JNumber x) \<Rightarrow> Some x | _ \<Rightarrow> None)"

definition get_string :: "jmap \<Rightarrow> string \<Rightarrow> string option" where
  "get_string m k = (case map_of m k of Some (JString s) \<Rightarrow> Some s | _ \<Rightarrow> None)"

definition get_map :: "jmap \<Rightarrow> string \<Rightarrow> jmap option" where
  "get_map m k = (case map_of m k of Some (JObject obj) \<Rightarrow> Some obj | _ \<Rightarrow> None)"

type_synonym time = int
  \<comment> \<open>a \<open>time.Time\<close>: nanoseconds since the zero Time, so that \<open>IsZero\<close> is \<open>t = 0\<close>\<close>

section \<open>Premium calculation (services/underwriting/handler.go)\<close>

record PremiumCalculation =
  BasePremium :: float64
  RiskScore :: float64
  RiskFactors :: jmap
  RiskFactorsJSON :: string
  FinalPremium :: float64

definition age_step :: "jmap \<Rightarrow> jmap \<times> float64 \<Rightarrow> jmap \<times> float64" where
  "age_step policyData st =
     (case get_float64 policyData ''driver_age'' of
        Some age \<Rightarrow>
          (fst st @ [(''driver_age'', JNumber age)],
           if f64_less age (lit 25) then f64_mul (snd st) (lit (15 / 10))
           else if f64_less (lit 65) age then f64_mul (snd st) (lit (12 / 10))
           else f64_mul (snd st) (lit (9 / 10)))
      | None \<Rightarrow> st)"

definition experience_step :: "jmap \<Rightarrow> jmap \<times> float64 \<Rightarrow> jmap \<times> float64" where
  "experience_step policyData st =
     (case get_float64 policyData ''driving_experience'' of
        Some experience \<Rightarrow>
          (fst st @ [(''driving_experience'', JNumber experience)],
           if f64_less experience (lit 3) then f64_mul (snd st) (lit (13 / 10))
           else if f64_less (lit 10) experience then f64_mul (snd st) (lit (8 / 10))
           else snd st)
      | None \<Rightarrow> st)"

definition car_step :: "jmap \<Rightarrow> jmap \<times> float64 \<Rightarrow> jmap \<times> float64" where
  "car_step policyData st =
     (case get_string policyData ''car_type'' of
        Some carType \<Rightarrow>
          (fst st @ [(''car_type'', JString carType)],
           if carType = ''sports'' then f64_mul (snd st) (lit (18 / 10))
           else if carType = ''suv'' then f64_mul (snd st) (lit (11 / 10))
           else if carType = ''sedan'' then f64_mul (snd st) (lit (9 / 10))
           else if carType = ''electric'' then f64_mul (snd st) (lit (7 / 10))
           else snd st)
      | None \<Rightarrow> st)"

definition region_step :: "jmap \<Rightarrow> jmap \<times> float64 \<Rightarrow> jmap \<times> float64" where
  "region_step policyData st =
     (case get_string policyData ''region'' of
        Some region \<Rightarrow>
          (fst st @ [(''region'', JString region)],
           if region = ''moscow'' then f64_mul (snd st) (lit (14 / 10))
           else if region = ''spb'' then f64_mul (snd st) (lit (12 / 10))
           else f64_mul (snd st) (lit (8 / 10)))
      | None \<Rightarrow> st)"

definition accidents_step ::
  "(float64 \<Rightarrow> float64 \<Rightarrow> float64) \<Rightarrow> jmap \<Rightarrow> jmap \<times> float64 \<Rightarrow> jmap \<times> float64" where
  "accidents_step pw policyData st =
     (case get_float64 policyData ''accidents_count'' of
        Some accidents \<Rightarrow>
          (fst st @ [(''accidents_count'', JNumber accidents)],
           f64_mul (snd st) (math_Pow pw (lit (13 / 10)) accidents))
      | None \<Rightarrow> st)"

text \<open>
  \<open>calculatePremium\<close>. The two library functions it calls are parameters: \<open>pw\<close> for the
  general case of math.Pow and \<open>marshal\<close> for json.Marshal of the risk factors.
\<close>

definition calculatePremium ::
  "(float64 \<Rightarrow> float64 \<Rightarrow> float64) \<Rightarrow> (jmap \<Rightarrow> error + string) \<Rightarrow> jmap
     \<Rightarrow> error + PremiumCalculation" where
  "calculatePremium pw marshal policyData =
     (let basePremium = lit 1000;
          st = accidents_step pw policyData
                 (region_step policyData
                   (car_step policyData
                     (experience_step policyData
                       (age_step policyData ([], lit 1)))));
          riskFactors = fst st;
          riskScore = snd st;
          finalPremium = f64_mul basePremium riskScore;
          finalPremium = f64_div (math_Round (f64_mul finalPremium (lit 100))) (lit 100)
      in case marshal riskFactors of
           Inl err \<Rightarrow> Inl (Errorf ''failed to marshal risk factors'' err)
         | Inr riskFactorsJSON \<Rightarrow>
             Inr \<lparr>BasePremium = basePremium, RiskScore = riskScore,
                  RiskFactors = riskFactors, RiskFactorsJSON = riskFactorsJSON,
                  FinalPremium = finalPremium\<rparr>)"

subsection \<open>The premium formula as the specification words it\<close>

text \<open>
  Base 1000.00; a running risk score initialised to 1.0 and multiplied, in this order, by
  the multiplier of each input that is present; the final premium is the product rounded
  to two decimals, halves away from zero. The arithmetic is that of the program.
\<close>

definition spec_age_multiplier :: "float64 option \<Rightarrow> float64 option" where
  "spec_age_multiplier a =
     (case a of
        None \<Rightarrow> None
      | Some x \<Rightarrow> Some (if f64_less x (lit 25) then lit (15 / 10)
                        else if f64_less (lit 65) x then lit (12 / 10) else lit (9 / 10)))"

definition spec_experience_multiplier :: "float64 option \<Rightarrow> float64 option" where
  "spec_experience_multiplier a =
     (case a of
        None \<Rightarrow> None
      | Some x \<Rightarrow> (if f64_less x (lit 3) then Some (lit (13 / 10))
                  else if f64_less (lit 10) x then Some (lit (8 / 10)) else None))"

definition spec_car_multiplier :: "string option \<Rightarrow> float64 option" where
  "spec_car_multiplier c =
     (case c of
        None \<Rightarrow> None
      | Some s \<Rightarrow> map_of [(''sports'', lit (18 / 10)), (''suv'', lit (11 / 10)),
                           (''sedan'', lit (9 / 10)), (''electric'', lit (7 / 10))] s)"

definition spec_region_multiplier :: "string option \<Rightarrow> float64 option" where
  "spec_region_multiplier r =
     (case r of
        None \<Rightarrow> None
      | Some s \<Rightarrow> Some (case map_of [(''moscow'', lit (14 / 10)), (''spb'', lit (12 / 10))] s of
                         Some m \<Rightarrow> m | None \<Rightarrow> lit (8 / 10)))"

definition spec_accidents_multiplier ::
  "(float64 \<Rightarrow> float64 \<Rightarrow> float64) \<Rightarrow> float64 option \<Rightarrow> float64 option" where
  "spec_accidents_multiplier pw n = map_option (math_Pow pw (lit (13 / 10))) n"

definition spec_apply :: "float64 \<Rightarrow> float64 option \<Rightarrow> float64" where
  "spec_apply score m = (case m of None \<Rightarrow> score | Some k \<Rightarrow> f64_mul score k)"

definition spec_risk_score :: "(float64 \<Rightarrow> float64 \<Rightarrow> float64) \<Rightarrow> jmap \<Rightarrow> float64" where
  "spec_risk_score pw policyData =
     foldl spec_apply (lit 1)
       [spec_age_multiplier (get_float64 policyData ''driver_age''),
        spec_experience_multiplier (get_float64 policyData ''driving_experience''),
        spec_car_multiplier (get_string policyData ''car_type''),
        spec_region_multiplier (get_string policyData ''region''),
        spec_accidents_multiplier pw (get_float64 policyData ''accidents_count'')]"

definition spec_round2 :: "float64 \<Rightarrow> float64" where
  "spec_round2 x = f64_div (math_Round (f64_mul x (lit 100))) (lit 100)"

definition spec_final_premium :: "(float64 \<Rightarrow> float64 \<Rightarrow> float64) \<Rightarrow> jmap \<Rightarrow> float64" where
  "spec_final_premium pw policyData =
     spec_round2 (f64_mul (lit 1000) (spec_risk_score pw policyData))"

definition sample_policy :: jmap where
  \<comment> \<open>age 30, 10 years of experience, sedan, moscow, no accident\<close>
  "sample_policy =
     [(''driver_age'', JNumber (Finite 30)), (''driving_experience'', JNumber (Finite 10)),
      (''car_type'', JString ''sedan''), (''region'', JString ''moscow''),
      (''accidents_count'', JNumber (Finite 0))]"

section \<open>Messages, tables and the logger\<close>

record PolicyEvent =
  ID :: string
  PolicyID :: string
  EventType :: string
  EventData :: jmap
  Timestamp :: time
  Source :: string
  Version :: string

record ProducerMessage =
  pm_Topic :: string
  pm_Key :: string
  pm_Value :: string
  pm_Headers :: "(string \<times> string) list"
  pm_Timestamp :: time

record ConsumerMessage =
  Topic :: string
  Partition :: "32 word"
  Offset :: "64 word"
  Key :: string
  Value :: string

text \<open>
  The rows of the three tables of scripts/init.sql that the code writes. Each table is the
  list of its rows in insertion order; \<open>id\<close> is the primary key of each.
\<close>

record event_row =
  pe_id :: string
  pe_policy_id :: string
  pe_event_type :: string
  pe_event_data :: string
  pe_processed_at :: time
  pe_kafka_topic :: string

record premium_row =
  pc_id :: string
  pc_policy_id :: string
  pc_base_premium :: float64
  pc_risk_factors :: string
  pc_final_premium :: float64
  pc_calculated_at :: time
  pc_calculation_version :: int

record billing_row =
  br_id :: string
  br_policy_id :: string
  br_amount :: float64
  br_billing_type :: string
  br_status :: string
  br_due_date :: "time option"
  br_created_at :: time
  br_paid_at :: "time option"

datatype level = Debug | Info | Warn | Error

text \<open>
  The database and the logger, as a process sees them. A logger call is kept as its
  level and message; its fields are not.
\<close>

record store =
  policy_events :: "event_row list"
  premium_calculations :: "premium_row list"
  billing_records :: "billing_row list"
  log :: "(level \<times> string) list"

definition tables :: "store \<Rightarrow> event_row list \<times> premium_row list \<times> billing_row list" where
  "tables s = (policy_events s, premium_calculations s, billing_records s)"

definition logf :: "level \<Rightarrow> string \<Rightarrow> store \<Rightarrow> store" where
  "logf l m s = s\<lparr>log := log s @ [(l, m)]\<rparr>"

definition duplicate_key :: error where
  "duplicate_key = ErrorString ''duplicate key value violates unique constraint''"

section \<open>Producer (pkg/kafka, PublishPolicyEvent)\<close>

text \<open>
  What one call of \<open>PublishPolicyEvent\<close> meets outside the program: the UUID and the
  clock reading it would draw, the failure (if any) of each database step, whether the
  \<open>select\<close> on the producer's input channel takes the \<open>ctx.Done()\<close> branch (and
  then the value of \<open>ctx.Err()\<close>), and what the broker later answers for the message:
  \<open>None\<close> for an acknowledgement on \<open>Successes()\<close>, \<open>Some e\<close> for a failure on
  \<open>Errors()\<close>.
\<close>

record publish_env =
  new_uuid :: string
  time_now :: time
  begin_error :: "fault option"
  select_error :: "fault option"
  ctx_done :: "error option"
  broker_reply :: "error option"
  insert_error :: "fault option"
  commit_error :: "fault option"

record producer_state =
  pdb :: store
  input :: "ProducerMessage list"

definition plog :: "level \<Rightarrow> string \<Rightarrow> producer_state \<Rightarrow> producer_state" where
  "plog l m p = p\<lparr>pdb := logf l m (pdb p)\<rparr>"

definition handleSuccesses :: "producer_state \<Rightarrow> producer_state" where
  \<comment> \<open>the body of the loop over \<open>Successes()\<close>, for one acknowledgement\<close>
  "handleSuccesses p = plog Debug ''Message sent successfully'' p"

definition handleErrors :: "error \<Rightarrow> producer_state \<Rightarrow> producer_state" where
  \<comment> \<open>the body of the loop over \<open>Errors()\<close>, for one failure\<close>
  "handleErrors err p = plog Error ''Failed to send message'' p"

definition broker_answers :: "error option \<Rightarrow> producer_state \<Rightarrow> producer_state" where
  \<comment> \<open>the two background goroutines receive the broker's answer\<close>
  "broker_answers reply p =
     (case reply of None \<Rightarrow> handleSuccesses p | Some err \<Rightarrow> handleErrors err p)"

definition select_event_id :: "publish_env \<Rightarrow> string \<Rightarrow> store \<Rightarrow> error option" where
  \<comment> \<open>\<open>QueryRowContext("SELECT id FROM insurance.policy_events WHERE id = $1").Scan\<close>\<close>
  "select_event_id env i s =
     (case select_error env of
        Some f \<Rightarrow> Some (fault_error f)
      | None \<Rightarrow> if i \<in> set (map pe_id (policy_events s)) then None else Some ErrNoRows)"

definition insert_event :: "publish_env \<Rightarrow> event_row \<Rightarrow> store \<Rightarrow> error + store" where
  "insert_event env r s =
     (case insert_error env of
        Some f \<Rightarrow> Inl (fault_error f)
      | None \<Rightarrow>
          if pe_id r \<in> set (map pe_id (policy_events s)) then Inl duplicate_key
          else Inr (s\<lparr>policy_events := policy_events s @ [r]\<rparr>))"

definition fill_event :: "publish_env \<Rightarrow> PolicyEvent \<Rightarrow> PolicyEvent" where
  "fill_event env event =
     (let event = (if ID event = [] then event\<lparr>ID := new_uuid env\<rparr> else event)
      in if Timestamp event = 0 then event\<lparr>Timestamp := time_now env\<rparr> else event)"

definition event_message :: "PolicyEvent \<Rightarrow> string \<Rightarrow> ProducerMessage" where
  "event_message event eventBytes =
     \<lparr>pm_Topic = ''auto.events'', pm_Key = PolicyID event, pm_Value = eventBytes,
      pm_Headers = [(''event_id'', ID event), (''event_type'', EventType event),
                    (''source'', Source event)],
      pm_Timestamp = Timestamp event\<rparr>"

definition event_data_json :: "(jmap \<Rightarrow> error + string) \<Rightarrow> jmap \<Rightarrow> string" where
  \<comment> \<open>\<open>eventDataJSON, _ := json.Marshal(event.EventData)\<close>: the error is dropped\<close>
  "event_data_json marshal d = (case marshal d of Inl err \<Rightarrow> [] | Inr js \<Rightarrow> js)"

text \<open>
  \<open>PublishPolicyEvent\<close> returns its error, the event (which it fills in through the
  pointer) and the new state. The transaction is the local \<open>tx\<close>: the row is added to a
  copy of the tables, which replaces them only at a successful commit; every other
  return leaves them as they were (the deferred rollback). The 100 ms sleep has no
  effect on the state; the broker's answer goes to the logging goroutines only.
\<close>

definition PublishPolicyEvent ::
  "(PolicyEvent \<Rightarrow> error + string) \<Rightarrow> (jmap \<Rightarrow> error + string) \<Rightarrow> publish_env
     \<Rightarrow> PolicyEvent \<Rightarrow> producer_state \<Rightarrow> error option \<times> PolicyEvent \<times> producer_state" where
  "PublishPolicyEvent marshal_event marshal env event0 p =
     (let event = fill_event env event0
      in case begin_error env of
           Some f \<Rightarrow> (Some (Errorf ''failed to begin transaction'' (fault_error f)), event, p)
         | None \<Rightarrow>
        (case select_event_id env (ID event) (pdb p) of
           None \<Rightarrow> (None, event, plog Info ''Event already processed, skipping'' p)
         | Some err \<Rightarrow>
        if err \<noteq> ErrNoRows
        then (Some (Errorf ''failed to check existing event'' err), event, p)
        else
        (case marshal_event event of
           Inl err \<Rightarrow> (Some (Errorf ''failed to marshal event'' err), event, p)
         | Inr eventBytes \<Rightarrow>
        (case ctx_done env of
           Some err \<Rightarrow> (Some err, event, p)
         | None \<Rightarrow>
        (let p1 = p\<lparr>input := input p @ [event_message event eventBytes]\<rparr>;
             p2 = broker_answers (broker_reply env) p1;
             row = \<lparr>pe_id = ID event, pe_policy_id = PolicyID event,
                    pe_event_type = EventType event,
                    pe_event_data = event_data_json marshal (EventData event),
                    pe_processed_at = Timestamp event, pe_kafka_topic = ''auto.events''\<rparr>
         in case insert_event env row (pdb p2) of
              Inl err \<Rightarrow> (Some (Errorf ''failed to insert event'' err), event, p2)
            | Inr tx \<Rightarrow>
           (case commit_error env of
              Some f \<Rightarrow>
                (Some (Errorf ''failed to commit transaction'' (fault_error f)), event, p2)
            | None \<Rightarrow>
                (None, event,
                 plog Info ''Policy event published successfully'' (p2\<lparr>pdb := tx\<rparr>))))))))"

definition ledger_ids :: "producer_state \<Rightarrow> string list" where
  "ledger_ids p = map pe_id (policy_events (pdb p))"

definition ledger_ok :: "producer_state \<Rightarrow> bool" where
  \<comment> \<open>\<open>id UUID PRIMARY KEY\<close>: the ids are distinct and none is the empty string\<close>
  "ledger_ok p = (distinct (ledger_ids p) \<and> [] \<notin> set (ledger_ids p))"

definition rows_with_id :: "string \<Rightarrow> producer_state \<Rightarrow> nat" where
  "rows_with_id i p = length (filter (\<lambda>r. pe_id r = i) (policy_events (pdb p)))"

subsection \<open>Sample inputs of the producer\<close>

definition sample_event :: PolicyEvent where
  "sample_event =
     \<lparr>ID = ''e-1'', PolicyID = ''p-1'', EventType = ''created'',
      EventData = [(''policy'', JObject sample_policy)], Timestamp = 1000,
      Source = ''gateway'', Version = ''1.0''\<rparr>"

definition quiet_env :: publish_env where
  \<comment> \<open>nothing fails and the broker acknowledges\<close>
  "quiet_env =
     \<lparr>new_uuid = ''u-1'', time_now = 2000, begin_error = None, select_error = None,
      ctx_done = None, broker_reply = None, insert_error = None, commit_error = None\<rparr>"

definition nack_env :: publish_env where
  \<comment> \<open>nothing fails in the program or the database, but the broker reports a failure\<close>
  "nack_env = quiet_env\<lparr>broker_reply := Some (ErrorString ''kafka: not enough replicas'')\<rparr>"

definition empty_store :: store where
  "empty_store =
     \<lparr>policy_events = [], premium_calculations = [], billing_records = [], log = []\<rparr>"

definition empty_producer :: producer_state where
  "empty_producer = \<lparr>pdb = empty_store, input = []\<rparr>"

definition sample_row :: event_row where
  "sample_row =
     \<lparr>pe_id = ''e-1'', pe_policy_id = ''p-1'', pe_event_type = ''created'',
      pe_event_data = ''{}'', pe_processed_at = 1000, pe_kafka_topic = ''auto.events''\<rparr>"

definition sample_published :: producer_state where
  "sample_published =
     \<lparr>pdb = \<lparr>policy_events = [sample_row], premium_calculations = [], billing_records = [],
              log = [(Debug, ''Message sent successfully''),
                     (Info, ''Policy event published successfully'')]\<rparr>,
      input = [event_message sample_event ''{}'']\<rparr>"

section \<open>Middleware (pkg/kafka/middleware.go)\<close>

text \<open>
  The state a consumer works on: the database and logger (the only part a handler
  reaches), the offsets marked on the session, the messages delivered to the DLQ topic
  and the metric counters (\<open>ProcessingTime\<close> counts the observations).
\<close>

record DLQMessage =
  OriginalTopic :: string
  OriginalPartition :: "32 word"
  OriginalOffset :: "64 word"
  OriginalKey :: string
  OriginalValue :: string
  ProcessingError :: error
  dlq_Timestamp :: time

record world =
  db :: store
  marked :: "(string \<times> 32 word \<times> 64 word) list"
  dlq :: "(string \<times> string \<times> DLQMessage) list"
  MessagesProcessed :: nat
  ProcessingTime :: nat
  Errors :: nat
  DLQMessages :: nat

definition wlog :: "level \<Rightarrow> string \<Rightarrow> world \<Rightarrow> world" where
  "wlog l m w = w\<lparr>db := logf l m (db w)\<rparr>"

text \<open>
  A context is read where the code selects on \<open>ctx.Done()\<close>: \<open>ctx k\<close> is what the
  select before attempt \<open>k\<close> of the retry loop finds, \<open>Some e\<close> when the \<open>Done\<close> branch is
  taken (\<open>e\<close> being \<open>ctx.Err()\<close>) and \<open>None\<close> when the timer fires. A handler or a
  \<open>next\<close> is a function of the state; whatever varies from one call to the next is part
  of that state.
\<close>

type_synonym Context = "nat \<Rightarrow> error option"

type_synonym handler = "Context \<Rightarrow> ConsumerMessage \<Rightarrow> store \<Rightarrow> error option \<times> store"

type_synonym next_fn = "Context \<Rightarrow> ConsumerMessage \<Rightarrow> world \<Rightarrow> error option \<times> world"

definition isRetryableError :: "error \<Rightarrow> bool" where
  "isRetryableError err = (if err = Canceled \<or> err = DeadlineExceeded then False else True)"

definition LoggingMiddleware_Process ::
  "Context \<Rightarrow> ConsumerMessage \<Rightarrow> next_fn \<Rightarrow> world \<Rightarrow> error option \<times> world" where
  "LoggingMiddleware_Process ctx message nxt w =
     (case nxt ctx message (wlog Debug ''Processing message'' w) of
        (None, w1) \<Rightarrow> (None, wlog Info ''Message processed successfully'' w1)
      | (Some err, w1) \<Rightarrow> (Some err, wlog Error ''Message processing failed'' w1))"

definition MetricsMiddleware_Process ::
  "Context \<Rightarrow> ConsumerMessage \<Rightarrow> next_fn \<Rightarrow> world \<Rightarrow> error option \<times> world" where
  "MetricsMiddleware_Process ctx message nxt w =
     (case nxt ctx message w of
        (err, w1) \<Rightarrow>
          (let w2 = w1\<lparr>ProcessingTime := ProcessingTime w1 + 1\<rparr>
           in (err, case err of
                      Some e \<Rightarrow> w2\<lparr>Errors := Errors w2 + 1\<rparr>
                    | None \<Rightarrow> w2\<lparr>MessagesProcessed := MessagesProcessed w2 + 1\<rparr>)))"

text \<open>
  The loop of \<open>RetryMiddleware.Process\<close>, from \<open>attempt\<close> on. Beside the returned error
  and the state it yields what it did, for the statements about it: the outcome of each
  call of \<open>next\<close> in order, and the length of each wait it completed. The counters are
  Go ints, here unbounded integers: \<open>attempt\<close> and \<open>maxRetries + 1\<close> stay within int64
  for every \<open>maxRetries\<close> but the largest int64.
\<close>

record retry_run =
  returned :: "error option"
  final :: world
  attempts :: "error option list"
  waits :: "int list"

function retry_loop ::
  "int \<Rightarrow> int \<Rightarrow> Context \<Rightarrow> ConsumerMessage \<Rightarrow> next_fn \<Rightarrow> int \<Rightarrow> error option
     \<Rightarrow> error option list \<Rightarrow> int list \<Rightarrow> world \<Rightarrow> retry_run" where
  "retry_loop maxRetries retryDelay ctx message nxt attempt lastErr outs ws w =
     (if attempt \<le> maxRetries then
        (let w0 = (if 0 < attempt then wlog Warn ''Retrying message processing'' w else w)
         in case (if 0 < attempt then ctx (nat attempt) else None) of
              Some e \<Rightarrow> \<lparr>returned = Some e, final = w0, attempts = outs, waits = ws\<rparr>
            | None \<Rightarrow>
           (let ws1 = (if 0 < attempt then ws @ [retryDelay] else ws)
            in case nxt ctx message w0 of
                 (None, w1) \<Rightarrow>
                   \<lparr>returned = None,
                    final = (if 0 < attempt
                             then wlog Info ''Message processing succeeded after retry'' w1
                             else w1),
                    attempts = outs @ [None], waits = ws1\<rparr>
               | (Some err, w1) \<Rightarrow>
                   if \<not> isRetryableError err
                   then \<lparr>returned = Some (FailedAfter (maxRetries + 1) (Some err)),
                         final = wlog Error ''Non-retryable error, giving up'' w1,
                         attempts = outs @ [Some err], waits = ws1\<rparr>
                   else retry_loop maxRetries retryDelay ctx message nxt (attempt + 1)
                          (Some err) (outs @ [Some err]) ws1 w1))
      else \<lparr>returned = Some (FailedAfter (maxRetries + 1) lastErr), final = w,
            attempts = outs, waits = ws\<rparr>)"
  by pat_completeness auto
termination
  by (relation "measure (\<lambda>(maxRetries, retryDelay, ctx, message, nxt, attempt, rest).
        nat (maxRetries + 1 - attempt))") auto

declare retry_loop.simps [simp del]

definition retry_trace ::
  "int \<Rightarrow> int \<Rightarrow> Context \<Rightarrow> ConsumerMessage \<Rightarrow> next_fn \<Rightarrow> world \<Rightarrow> retry_run" where
  "retry_trace maxRetries retryDelay ctx message nxt w =
     retry_loop maxRetries retryDelay ctx message nxt 0 None [] [] w"

definition RetryMiddleware_Process ::
  "int \<Rightarrow> int \<Rightarrow> Context \<Rightarrow> ConsumerMessage \<Rightarrow> next_fn \<Rightarrow> world \<Rightarrow> error option \<times> world" where
  "RetryMiddleware_Process maxRetries retryDelay ctx message nxt w =
     (let r = retry_trace maxRetries retryDelay ctx message nxt w in (returned r, final r))"

datatype Middleware = LoggingMiddleware | MetricsMiddleware | RetryMiddleware int int

fun Process :: "Middleware \<Rightarrow> Context \<Rightarrow> ConsumerMessage \<Rightarrow> next_fn \<Rightarrow> world \<Rightarrow> error option \<times> world" where
  "Process LoggingMiddleware = LoggingMiddleware_Process"
| "Process MetricsMiddleware = MetricsMiddleware_Process"
| "Process (RetryMiddleware maxRetries retryDelay) = RetryMiddleware_Process maxRetries retryDelay"

section \<open>Consumer (pkg/kafka)\<close>

record Config =
  Brokers :: "string list"
  GroupID :: string
  ConfigTopic :: string
  RetryAttempts :: int
  RetryDelay :: int
  ProcessingTimeout :: int
  DLQTopic :: string

record Consumer =
  config :: Config
  handler :: handler
  middlewares :: "Middleware list"

definition Use :: "Middleware \<Rightarrow> Consumer \<Rightarrow> Consumer" where
  "Use middleware c = c\<lparr>middlewares := middlewares c @ [middleware]\<rparr>"

definition NewConsumer :: "fault option \<Rightarrow> Config \<Rightarrow> handler \<Rightarrow> error + Consumer" where
  \<comment> \<open>the first argument is the failure, if any, of \<open>sarama.NewSyncProducer\<close>\<close>
  "NewConsumer producer_error cfg h =
     (case producer_error of
        Some f \<Rightarrow> Inl (Errorf ''failed to create producer'' (fault_error f))
      | None \<Rightarrow>
          Inr (Use (RetryMiddleware (RetryAttempts cfg) (RetryDelay cfg))
                (Use MetricsMiddleware
                  (Use LoggingMiddleware \<lparr>config = cfg, handler = h, middlewares = []\<rparr>))))"

definition call_handler :: "handler \<Rightarrow> next_fn" where
  "call_handler h ctx message w = (case h ctx message (db w) of (err, s) \<Rightarrow> (err, w\<lparr>db := s\<rparr>))"

definition processMessage ::
  "Consumer \<Rightarrow> Context \<Rightarrow> ConsumerMessage \<Rightarrow> world \<Rightarrow> error option \<times> world" where
  \<comment> \<open>the chain is built from the last middleware to the first, around the handler\<close>
  "processMessage c ctx message w =
     fold (\<lambda>middleware currentNext. (\<lambda>ctx msg. Process middleware ctx msg currentNext))
       (rev (middlewares c)) (call_handler (handler c)) ctx message w"

record dlq_env =
  dlq_now :: time
  dlq_marshal_error :: "error option"
  dlq_send_error :: "fault option"

definition sendToDLQ :: "Consumer \<Rightarrow> dlq_env \<Rightarrow> ConsumerMessage \<Rightarrow> error \<Rightarrow> world \<Rightarrow> world" where
  \<comment> \<open>the value sent is kept as the \<open>DLQMessage\<close> itself, and its \<open>Error\<close> field as the
      error whose text the code stores\<close>
  "sendToDLQ c env originalMessage processingError w =
     (let dlqMessage =
            \<lparr>OriginalTopic = Topic originalMessage,
             OriginalPartition = Partition originalMessage,
             OriginalOffset = Offset originalMessage,
             OriginalKey = Key originalMessage,
             OriginalValue = Value originalMessage,
             ProcessingError = processingError,
             dlq_Timestamp = dlq_now env\<rparr>
      in case dlq_marshal_error env of
           Some err \<Rightarrow> wlog Error ''Failed to marshal DLQ message'' w
         | None \<Rightarrow>
        (case dlq_send_error env of
           Some f \<Rightarrow> wlog Error ''Failed to send message to DLQ'' w
         | None \<Rightarrow>
             wlog Warn ''Message sent to DLQ''
               (w\<lparr>dlq := dlq w @ [(DLQTopic (config c), Key originalMessage, dlqMessage)],
                  DLQMessages := DLQMessages w + 1\<rparr>)))"

definition MarkOffset :: "string \<Rightarrow> 32 word \<Rightarrow> 64 word \<Rightarrow> world \<Rightarrow> world" where
  "MarkOffset topic part off w = w\<lparr>marked := marked w @ [(topic, part, off)]\<rparr>"

text \<open>
  What the \<open>select\<close> of \<open>ConsumeClaim\<close> yields, one item per iteration: a message (with
  the environment of its DLQ send), nil from the closed channel, or the end of the
  session's context.
\<close>

datatype claim_event = Received ConsumerMessage dlq_env | Closed | SessionDone

definition consume_one :: "Consumer \<Rightarrow> Context \<Rightarrow> ConsumerMessage \<Rightarrow> dlq_env \<Rightarrow> world \<Rightarrow> world" where
  \<comment> \<open>the body of the \<open>case message := <-claim.Messages()\<close> branch for a non-nil message\<close>
  "consume_one c ctx message env w =
     (case processMessage c ctx message w of
        (err, w1) \<Rightarrow>
          (let w2 = (case err of
                       None \<Rightarrow> w1
                     | Some e \<Rightarrow>
                         (let w' = wlog Error ''Failed to process message'' w1
                          in if DLQTopic (config c) \<noteq> [] then sendToDLQ c env message e w'
                             else w'))
           in MarkOffset (Topic message) (Partition message) (Offset message + 1) w2))"

text \<open>
  \<open>ConsumeClaim\<close> over the items the select yields. The first component tells whether
  the function has returned (it only ever returns nil); it is \<open>False\<close> when the items
  are used up and the loop waits in its select.
\<close>

fun ConsumeClaim :: "Consumer \<Rightarrow> Context \<Rightarrow> claim_event list \<Rightarrow> world \<Rightarrow> bool \<times> world" where
  "ConsumeClaim c ctx [] w = (False, w)"
| "ConsumeClaim c ctx (Received message env # rest) w =
     ConsumeClaim c ctx rest (consume_one c ctx message env w)"
| "ConsumeClaim c ctx (Closed # rest) w = (True, w)"
| "ConsumeClaim c ctx (SessionDone # rest) w = (True, w)"

fun delivered :: "claim_event list \<Rightarrow> ConsumerMessage list" where
  "delivered [] = []"
| "delivered (Received message env # rest) = message # delivered rest"
| "delivered (Closed # rest) = []"
| "delivered (SessionDone # rest) = []"

subsection \<open>Sample inputs of the consumer\<close>

definition sample_message :: ConsumerMessage where
  "sample_message =
     \<lparr>Topic = ''auto.events'', Partition = 0, Offset = 41, Key = ''p-1'', Value = ''not-json''\<rparr>"

definition empty_world :: world where
  "empty_world =
     \<lparr>db = empty_store, marked = [], dlq = [], MessagesProcessed = 0, ProcessingTime = 0,
      Errors = 0, DLQMessages = 0\<rparr>"

definition always_failing :: next_fn where
  "always_failing ctx message w = (Some (ErrorString ''connection refused''), w)"

section \<open>Pricing handler (services/underwriting/handler.go)\<close>

text \<open>
  The environment of one call of the handler: the UUID and the clock reading it draws and
  the failure, if any, of its query and of its insert. The library functions are
  parameters: \<open>unmarshal\<close> is \<open>json.Unmarshal\<close> into a \<open>PolicyEvent\<close>, \<open>pw\<close> and
  \<open>marshal\<close> are those of \<open>calculatePremium\<close>.
\<close>

record uw_env =
  uw_uuid :: string
  uw_now :: time
  uw_query_error :: "fault option"
  uw_exec_error :: "fault option"

definition insert_premium :: "uw_env \<Rightarrow> premium_row \<Rightarrow> store \<Rightarrow> error + store" where
  "insert_premium env r s =
     (case uw_exec_error env of
        Some f \<Rightarrow> Inl (fault_error f)
      | None \<Rightarrow>
          if pc_id r \<in> set (map pc_id (premium_calculations s)) then Inl duplicate_key
          else Inr (s\<lparr>premium_calculations := premium_calculations s @ [r]\<rparr>))"

definition policy_versions :: "string \<Rightarrow> store \<Rightarrow> int list" where
  "policy_versions policy s =
     map pc_calculation_version
       (filter (\<lambda>r. pc_policy_id r = policy) (premium_calculations s))"

definition max_version :: "string \<Rightarrow> store \<Rightarrow> int" where
  \<comment> \<open>\<open>SELECT COALESCE(MAX(calculation_version), 0) ... WHERE policy_id = $1\<close>\<close>
  "max_version policy s =
     (case policy_versions policy s of [] \<Rightarrow> 0 | v # vs \<Rightarrow> fold max vs v)"

definition premium_row_of :: "uw_env \<Rightarrow> PolicyEvent \<Rightarrow> PremiumCalculation \<Rightarrow> int \<Rightarrow> premium_row" where
  "premium_row_of env event calculation version =
     \<lparr>pc_id = uw_uuid env, pc_policy_id = PolicyID event,
      pc_base_premium = BasePremium calculation,
      pc_risk_factors = RiskFactorsJSON calculation,
      pc_final_premium = FinalPremium calculation,
      pc_calculated_at = uw_now env, pc_calculation_version = version\<rparr>"

definition underwriting_handlePolicyCreated ::
  "(float64 \<Rightarrow> float64 \<Rightarrow> float64) \<Rightarrow> (jmap \<Rightarrow> error + string) \<Rightarrow> uw_env \<Rightarrow> Context
     \<Rightarrow> PolicyEvent \<Rightarrow> store \<Rightarrow> error option \<times> store" where
  "underwriting_handlePolicyCreated pw marshal env ctx event s =
     (case get_map (EventData event) ''policy'' of
        None \<Rightarrow> (Some (ErrorString ''invalid policy data in event''), s)
      | Some policyData \<Rightarrow>
     (case calculatePremium pw marshal policyData of
        Inl err \<Rightarrow> (Some (Errorf ''failed to calculate premium'' err), s)
      | Inr calculation \<Rightarrow>
     (case insert_premium env (premium_row_of env event calculation 1) s of
        Inl err \<Rightarrow> (Some (Errorf ''failed to save premium calculation'' err), s)
      | Inr s1 \<Rightarrow> (None, logf Info ''Premium calculated successfully'' s1))))"

definition select_max_version :: "uw_env \<Rightarrow> string \<Rightarrow> store \<Rightarrow> error + int" where
  \<comment> \<open>the aggregate query returns one row whenever it runs, never \<open>sql.ErrNoRows\<close>\<close>
  "select_max_version env policy s =
     (case uw_query_error env of
        Some f \<Rightarrow> Inl (fault_error f)
      | None \<Rightarrow> Inr (max_version policy s))"

definition save_renewed ::
  "(float64 \<Rightarrow> float64 \<Rightarrow> float64) \<Rightarrow> (jmap \<Rightarrow> error + string) \<Rightarrow> uw_env
     \<Rightarrow> PolicyEvent \<Rightarrow> jmap \<Rightarrow> int \<Rightarrow> store \<Rightarrow> error option \<times> store" where
  \<comment> \<open>\<open>handlePolicyRenewed\<close> from the calculation on, with the previous version read\<close>
  "save_renewed pw marshal env event policyData previousVersion s =
     (case calculatePremium pw marshal policyData of
        Inl err \<Rightarrow> (Some (Errorf ''failed to calculate premium'' err), s)
      | Inr calculation \<Rightarrow>
     (case insert_premium env (premium_row_of env event calculation (previousVersion + 1)) s of
        Inl err \<Rightarrow> (Some (Errorf ''failed to save renewed premium calculation'' err), s)
      | Inr s1 \<Rightarrow> (None, logf Info ''Premium recalculated for renewal'' s1)))"

definition underwriting_handlePolicyRenewed ::
  "(float64 \<Rightarrow> float64 \<Rightarrow> float64) \<Rightarrow> (jmap \<Rightarrow> error + string) \<Rightarrow> uw_env \<Rightarrow> Context
     \<Rightarrow> PolicyEvent \<Rightarrow> store \<Rightarrow> error option \<times> store" where
  "underwriting_handlePolicyRenewed pw marshal env ctx event s =
     (case get_map (EventData event) ''policy'' of
        None \<Rightarrow> (Some (ErrorString ''invalid policy data in event''), s)
      | Some policyData \<Rightarrow>
     (case select_max_version env (PolicyID event) s of
        Inl err \<Rightarrow>
          if err \<noteq> ErrNoRows
          then (Some (Errorf ''failed to get previous calculation version'' err), s)
          else save_renewed pw marshal env event policyData 0 s
      | Inr previousVersion \<Rightarrow>
          save_renewed pw marshal env event policyData previousVersion s))"

definition underwriting_handlePolicyCancelled ::
  "Context \<Rightarrow> PolicyEvent \<Rightarrow> store \<Rightarrow> error option \<times> store" where
  "underwriting_handlePolicyCancelled ctx event s =
     (None, logf Info ''Policy cancelled, no premium calculation needed'' s)"

definition underwriting_dispatch ::
  "(float64 \<Rightarrow> float64 \<Rightarrow> float64) \<Rightarrow> (jmap \<Rightarrow> error + string) \<Rightarrow> uw_env \<Rightarrow> Context
     \<Rightarrow> PolicyEvent \<Rightarrow> store \<Rightarrow> error option \<times> store" where
  \<comment> \<open>\<open>Handle\<close> after the decoding: the first log line and the switch on the event type\<close>
  "underwriting_dispatch pw marshal env ctx event s =
     (let s0 = logf Info ''Processing underwriting event'' s
      in if EventType event = ''created''
         then underwriting_handlePolicyCreated pw marshal env ctx event s0
         else if EventType event = ''renewed''
         then underwriting_handlePolicyRenewed pw marshal env ctx event s0
         else if EventType event = ''cancelled''
         then underwriting_handlePolicyCancelled ctx event s0
         else (None, logf Warn ''Unknown event type, skipping'' s0))"

definition underwriting_Handle ::
  "(string \<Rightarrow> error + PolicyEvent) \<Rightarrow> (float64 \<Rightarrow> float64 \<Rightarrow> float64)
     \<Rightarrow> (jmap \<Rightarrow> error + string) \<Rightarrow> uw_env \<Rightarrow> handler" where
  "underwriting_Handle unmarshal pw marshal env ctx message s =
     (case unmarshal (Value message) of
        Inl err \<Rightarrow> (Some (Errorf ''failed to unmarshal event'' err), s)
      | Inr event \<Rightarrow> underwriting_dispatch pw marshal env ctx event s)"

text \<open>
  A run of the pricing handler over a sequence of decoded events, each with its
  environment; a failed invocation does not stop the consumer.
\<close>

fun pricing_run ::
  "(float64 \<Rightarrow> float64 \<Rightarrow> float64) \<Rightarrow> (jmap \<Rightarrow> error + string) \<Rightarrow> Context
     \<Rightarrow> (PolicyEvent \<times> uw_env) list \<Rightarrow> store \<Rightarrow> store" where
  "pricing_run pw marshal ctx [] s = s"
| "pricing_run pw marshal ctx ((event, env) # rest) s =
     pricing_run pw marshal ctx rest (snd (underwriting_dispatch pw marshal env ctx event s))"

definition versions_contiguous :: "string \<Rightarrow> store \<Rightarrow> bool" where
  \<comment> \<open>the versions of a policy, in insertion order, are \<open>1..N\<close>\<close>
  "versions_contiguous policy s =
     (policy_versions policy s = map int [1..<Suc (length (policy_versions policy s))])"

definition versions_follow_time :: "string \<Rightarrow> store \<Rightarrow> bool" where
  \<comment> \<open>among the rows of a policy, a later \<open>calculated_at\<close> has a larger version\<close>
  "versions_follow_time policy s =
     (\<forall>r1\<in>set (premium_calculations s). \<forall>r2\<in>set (premium_calculations s).
        pc_policy_id r1 = policy \<and> pc_policy_id r2 = policy \<and>
        pc_calculated_at r1 < pc_calculated_at r2 \<longrightarrow>
        pc_calculation_version r1 < pc_calculation_version r2)"

definition pricing_inv :: "string set \<Rightarrow> time \<Rightarrow> store \<Rightarrow> bool" where
  \<comment> \<open>the invariant of a run: the two properties for every policy, every row's policy
      among \<open>seen\<close> and every row's \<open>calculated_at\<close> at most \<open>t\<close>\<close>
  "pricing_inv seen t s =
     ((\<forall>p. versions_contiguous p s \<and> versions_follow_time p s) \<and>
      (\<forall>r\<in>set (premium_calculations s). pc_policy_id r \<in> seen \<and> pc_calculated_at r \<le> t))"

fun created_first :: "string set \<Rightarrow> PolicyEvent list \<Rightarrow> bool" where
  \<comment> \<open>no created event of a policy comes after another event of that policy (or after a
      policy in \<open>seen\<close>)\<close>
  "created_first seen [] = True"
| "created_first seen (event # rest) =
     ((EventType event = ''created'' \<longrightarrow> PolicyID event \<notin> seen) \<and>
      created_first (insert (PolicyID event) seen) rest)"

section \<open>Billing handler (services/billing/handler.go)\<close>

record BillingRecord =
  RecordID :: string
  RecordPolicyID :: string
  Amount :: float64
  BillingType :: string
  Status :: string
  DueDate :: time
  CreatedAt :: time
  PaidAt :: "time option"

text \<open>
  The environment of one call of the billing handler: the UUID it draws, its readings of
  the clock (for the due date, for \<open>CreatedAt\<close> and, in \<open>processRefund\<close>, for
  \<open>paid_at\<close>) and the failure, if any, of its query, its insert and its update.
\<close>

record bill_env =
  bill_uuid :: string
  due_now :: time
  created_now :: time
  refund_now :: time
  bill_query_error :: "fault option"
  bill_insert_error :: "fault option"
  bill_update_error :: "fault option"

definition latest :: "('a \<Rightarrow> time) \<Rightarrow> 'a list \<Rightarrow> 'a option" where
  \<comment> \<open>\<open>ORDER BY key DESC LIMIT 1\<close>; of rows with the same key the one inserted last is
      taken (SQL leaves that choice open)\<close>
  "latest key rows =
     (case rows of
        [] \<Rightarrow> None
      | r # rs \<Rightarrow> Some (fold (\<lambda>x best. if key best \<le> key x then x else best) rs r))"

definition select_final_premium :: "bill_env \<Rightarrow> string \<Rightarrow> store \<Rightarrow> error + float64" where
  "select_final_premium env policy s =
     (case bill_query_error env of
        Some f \<Rightarrow> Inl (fault_error f)
      | None \<Rightarrow>
          (case latest pc_calculated_at
                  (filter (\<lambda>r. pc_policy_id r = policy) (premium_calculations s)) of
             None \<Rightarrow> Inl ErrNoRows
           | Some r \<Rightarrow> Inr (pc_final_premium r)))"

definition last_paid_premium :: "string \<Rightarrow> store \<Rightarrow> billing_row option" where
  "last_paid_premium policy s =
     latest br_created_at
       (filter (\<lambda>r. br_policy_id r = policy \<and> br_status r = ''paid'' \<and>
                     br_billing_type r = ''premium'') (billing_records s))"

definition select_last_paid :: "bill_env \<Rightarrow> string \<Rightarrow> store \<Rightarrow> error + billing_row" where
  "select_last_paid env policy s =
     (case bill_query_error env of
        Some f \<Rightarrow> Inl (fault_error f)
      | None \<Rightarrow>
          (case last_paid_premium policy s of None \<Rightarrow> Inl ErrNoRows | Some r \<Rightarrow> Inr r))"

definition AddDate_days :: "time \<Rightarrow> int \<Rightarrow> time" where
  \<comment> \<open>\<open>t.AddDate(0, 0, n)\<close>, for a time in UTC\<close>
  "AddDate_days t n = t + n * 86400000000000"

definition saveBillingRecord :: "bill_env \<Rightarrow> BillingRecord \<Rightarrow> store \<Rightarrow> error option \<times> store" where
  "saveBillingRecord env record s =
     (let dueDate = (if DueDate record \<noteq> 0 then Some (DueDate record) else None);
          paidAt = PaidAt record;
          row = \<lparr>br_id = RecordID record, br_policy_id = RecordPolicyID record,
                 br_amount = Amount record, br_billing_type = BillingType record,
                 br_status = Status record, br_due_date = dueDate,
                 br_created_at = CreatedAt record, br_paid_at = paidAt\<rparr>
      in case bill_insert_error env of
           Some f \<Rightarrow> (Some (fault_error f), s)
         | None \<Rightarrow>
             if br_id row \<in> set (map br_id (billing_records s)) then (Some duplicate_key, s)
             else (None, s\<lparr>billing_records := billing_records s @ [row]\<rparr>))"

definition sendPaymentNotification :: "BillingRecord \<Rightarrow> store \<Rightarrow> store" where
  "sendPaymentNotification record s = logf Info ''Payment notification sent (simulated)'' s"

definition time_Sub :: "time \<Rightarrow> time \<Rightarrow> int" where
  \<comment> \<open>\<open>t.Sub(u)\<close>: the difference as a Duration, the largest or smallest Duration when
      it does not fit in int64\<close>
  "time_Sub t u = max (- (2 ^ 63)) (min (2 ^ 63 - 1) (t - u))"

definition wrap64 :: "int \<Rightarrow> int" where
  \<comment> \<open>the int64 that an int64 operation with this exact result yields\<close>
  "wrap64 x = (x + 2 ^ 63) mod 2 ^ 64 - 2 ^ 63"

definition calculateRefund :: "float64 \<Rightarrow> time \<Rightarrow> time \<Rightarrow> float64" where
  "calculateRefund originalAmount paidAt cancelledAt =
     (let policyDuration = 365 * 24 * 3600000000000;
          timeUsed = time_Sub cancelledAt paidAt
      in if policyDuration \<le> timeUsed then Finite 0
         else
           (let unusedRatio = f64_div (float64_of_int (wrap64 (policyDuration - timeUsed)))
                                (float64_of_int policyDuration);
                refundAmount = f64_mul originalAmount unusedRatio
            in f64_div (float64_of_int (int_of_float64 (f64_mul refundAmount (lit 100))))
                 (lit 100)))"

definition processRefund ::
  "bill_env \<Rightarrow> BillingRecord \<Rightarrow> store \<Rightarrow> error option \<times> BillingRecord \<times> store" where
  \<comment> \<open>the 100 ms sleep has no effect on the state; the record is updated through the
      pointer\<close>
  "processRefund env refundRecord s =
     (case bill_update_error env of
        Some f \<Rightarrow>
          (Some (Errorf ''failed to update refund status'' (fault_error f)), refundRecord, s)
      | None \<Rightarrow>
          (None,
           refundRecord\<lparr>Status := ''paid'', PaidAt := Some (refund_now env)\<rparr>,
           s\<lparr>billing_records :=
                map (\<lambda>r. if br_id r = RecordID refundRecord
                          then r\<lparr>br_status := ''paid'', br_paid_at := Some (refund_now env)\<rparr>
                          else r)
                  (billing_records s)\<rparr>))"

definition premium_record :: "bill_env \<Rightarrow> PolicyEvent \<Rightarrow> float64 \<Rightarrow> int \<Rightarrow> BillingRecord" where
  \<comment> \<open>the \<open>billingRecord\<close> of \<open>handlePolicyCreated\<close> (30 days to pay) and of
      \<open>handlePolicyRenewed\<close> (15 days)\<close>
  "premium_record env event finalPremium daysToPay =
     \<lparr>RecordID = bill_uuid env, RecordPolicyID = PolicyID event, Amount = finalPremium,
      BillingType = ''premium'', Status = ''pending'',
      DueDate = AddDate_days (due_now env) daysToPay, CreatedAt = created_now env,
      PaidAt = None\<rparr>"

definition billing_handlePolicyCreated ::
  "bill_env \<Rightarrow> Context \<Rightarrow> PolicyEvent \<Rightarrow> store \<Rightarrow> error option \<times> store" where
  "billing_handlePolicyCreated env ctx event s =
     (case select_final_premium env (PolicyID event) s of
        Inl err \<Rightarrow>
          if err = ErrNoRows
          then (None, logf Warn ''Premium not calculated yet, skipping billing'' s)
          else (Some (Errorf ''failed to get premium calculation'' err), s)
      | Inr finalPremium \<Rightarrow>
          (let billingRecord = premium_record env event finalPremium 30
           in case saveBillingRecord env billingRecord s of
                (Some err, s1) \<Rightarrow> (Some (Errorf ''failed to save billing record'' err), s1)
              | (None, s1) \<Rightarrow>
                  (None, sendPaymentNotification billingRecord
                           (logf Info ''Billing record created for new policy'' s1))))"

definition billing_handlePolicyRenewed ::
  "bill_env \<Rightarrow> Context \<Rightarrow> PolicyEvent \<Rightarrow> store \<Rightarrow> error option \<times> store" where
  "billing_handlePolicyRenewed env ctx event s =
     (case select_final_premium env (PolicyID event) s of
        Inl err \<Rightarrow>
          if err = ErrNoRows
          then (None, logf Warn ''Premium not calculated for renewal, skipping billing'' s)
          else (Some (Errorf ''failed to get renewal premium calculation'' err), s)
      | Inr finalPremium \<Rightarrow>
          (let billingRecord = premium_record env event finalPremium 15
           in case saveBillingRecord env billingRecord s of
                (Some err, s1) \<Rightarrow>
                  (Some (Errorf ''failed to save renewal billing record'' err), s1)
              | (None, s1) \<Rightarrow>
                  (None, sendPaymentNotification billingRecord
                           (logf Info ''Billing record created for policy renewal'' s1))))"

definition refund_record :: "bill_env \<Rightarrow> PolicyEvent \<Rightarrow> float64 \<Rightarrow> BillingRecord" where
  \<comment> \<open>the \<open>refundRecord\<close> of \<open>handlePolicyCancelled\<close>; its \<open>DueDate\<close> is the zero Time\<close>
  "refund_record env event refundAmount =
     \<lparr>RecordID = bill_uuid env, RecordPolicyID = PolicyID event, Amount = refundAmount,
      BillingType = ''refund'', Status = ''pending'', DueDate = 0,
      CreatedAt = created_now env, PaidAt = None\<rparr>"


definition billing_handlePolicyCancelled ::
  "bill_env \<Rightarrow> Context \<Rightarrow> PolicyEvent \<Rightarrow> store \<Rightarrow> error option \<times> store" where
  "billing_handlePolicyCancelled env ctx event s =
     (case select_last_paid env (PolicyID event) s of
        Inl err \<Rightarrow>
          if err = ErrNoRows
          then (None, logf Info ''No paid premiums found, no refund needed'' s)
          else (Some (Errorf ''failed to get last billing record'' err), s)
      | Inr lastRow \<Rightarrow>
          (let lastAmount = br_amount lastRow;
               paidAt = (case br_paid_at lastRow of None \<Rightarrow> 0 | Some t \<Rightarrow> t);
               refundAmount = calculateRefund lastAmount paidAt (Timestamp event)
           in if f64_le refundAmount (Finite 0)
              then (None, logf Info ''No refund amount, policy period expired'' s)
              else
                (let refundRecord = refund_record env event refundAmount
                 in case saveBillingRecord env refundRecord s of
                      (Some err, s1) \<Rightarrow> (Some (Errorf ''failed to save refund record'' err), s1)
                    | (None, s1) \<Rightarrow>
                   (case processRefund env refundRecord s1 of
                      (Some err, refundRecord1, s2) \<Rightarrow>
                        (Some (Errorf ''failed to process refund'' err), s2)
                    | (None, refundRecord1, s2) \<Rightarrow>
                        (None, logf Info ''Refund processed for cancelled policy'' s2)))))"

definition billing_dispatch ::
  "bill_env \<Rightarrow> Context \<Rightarrow> PolicyEvent \<Rightarrow> store \<Rightarrow> error option \<times> store" where
  "billing_dispatch env ctx event s =
     (let s0 = logf Info ''Processing billing event'' s
      in if EventType event = ''created'' then billing_handlePolicyCreated env ctx event s0
         else if EventType event = ''renewed'' then billing_handlePolicyRenewed env ctx event s0
         else if EventType event = ''cancelled''
         then billing_handlePolicyCancelled env ctx event s0
         else (None, logf Warn ''Unknown event type, skipping'' s0))"

definition billing_Handle :: "(string \<Rightarrow> error + PolicyEvent) \<Rightarrow> bill_env \<Rightarrow> handler" where
  "billing_Handle unmarshal env ctx message s =
     (case unmarshal (Value message) of
        Inl err \<Rightarrow> (Some (Errorf ''failed to unmarshal event'' err), s)
      | Inr event \<Rightarrow> billing_dispatch env ctx event s)"

definition paid_at_iff_paid :: "store \<Rightarrow> bool" where
  \<comment> \<open>in every row of \<open>billing_records\<close>, \<open>paid_at\<close> is non-null iff the status is paid\<close>
  "paid_at_iff_paid s =
     (\<forall>r\<in>set (billing_records s). (br_paid_at r \<noteq> None) = (br_status r = ''paid''))"

subsection \<open>The refund as the specification words it\<close>




subsection \<open>Sample inputs of the handlers\<close>

definition no_pow :: "float64 \<Rightarrow> float64 \<Rightarrow> float64" where
  "no_pow x y = NaN"

definition marshal_ok :: "jmap \<Rightarrow> error + string" where
  "marshal_ok m = Inr ''{}''"

definition marshal_event_ok :: "PolicyEvent \<Rightarrow> error + string" where
  "marshal_event_ok e = Inr ''{}''"

definition never_done :: Context where
  "never_done k = None"

definition failing_unmarshal :: "string \<Rightarrow> error + PolicyEvent" where
  \<comment> \<open>what \<open>json.Unmarshal\<close> answers on the value \<open>not-json\<close>\<close>
  "failing_unmarshal v = Inl (ErrorString ''invalid character 'o' in literal null'')"

definition uw_env1 :: uw_env where
  "uw_env1 = \<lparr>uw_uuid = ''c-1'', uw_now = 10, uw_query_error = None, uw_exec_error = None\<rparr>"

definition uw_env2 :: uw_env where
  "uw_env2 = \<lparr>uw_uuid = ''c-2'', uw_now = 20, uw_query_error = None, uw_exec_error = None\<rparr>"

definition renewed_event :: PolicyEvent where
  "renewed_event = sample_event\<lparr>ID := ''e-2'', EventType := ''renewed''\<rparr>"

definition no_policy_event :: PolicyEvent where
  "no_policy_event = sample_event\<lparr>EventData := [(''reason'', JString ''user_request'')]\<rparr>"

definition some_unmarshal :: "string \<Rightarrow> error + PolicyEvent" where
  "some_unmarshal v = (if v = ''no-policy'' then Inr no_policy_event else failing_unmarshal v)"

definition sample_config :: Config where
  "sample_config =
     \<lparr>Brokers = [''localhost:9092''], GroupID = ''underwriting'', ConfigTopic = ''auto.events'',
      RetryAttempts = 3, RetryDelay = 2000, ProcessingTimeout = 30000,
      DLQTopic = ''auto.events.dlq''\<rparr>"

definition decode_error :: error where
  "decode_error =
     Errorf ''failed to unmarshal event'' (ErrorString ''invalid character 'o' in literal null'')"

definition quiet_dlq :: dlq_env where
  "quiet_dlq = \<lparr>dlq_now = 3000, dlq_marshal_error = None, dlq_send_error = None\<rparr>"

definition sample_consumer :: Consumer where
  \<comment> \<open>what \<open>NewConsumer\<close> builds from \<open>sample_config\<close> around the pricing handler\<close>
  "sample_consumer =
     \<lparr>config = sample_config,
      handler = underwriting_Handle failing_unmarshal no_pow marshal_ok uw_env1,
      middlewares = [LoggingMiddleware, MetricsMiddleware, RetryMiddleware 3 2000]\<rparr>"

definition days :: "int \<Rightarrow> int" where
  "days n = n * 86400000000000"

definition bill_env1 :: bill_env where
  "bill_env1 =
     \<lparr>bill_uuid = ''b-2'', due_now = days 100, created_now = days 100, refund_now = days 100 + 1,
      bill_query_error = None, bill_insert_error = None, bill_update_error = None\<rparr>"

definition paid_premium :: billing_row where
  \<comment> \<open>a premium of 1200.00 paid on day 27\<close>
  "paid_premium =
     \<lparr>br_id = ''b-1'', br_policy_id = ''p-1'', br_amount = Finite 1200,
      br_billing_type = ''premium'', br_status = ''paid'', br_due_date = Some (days 50),
      br_created_at = days 20, br_paid_at = Some (days 27)\<rparr>"

definition billed_store :: store where
  "billed_store = empty_store\<lparr>billing_records := [paid_premium]\<rparr>"

definition cancelled_event :: PolicyEvent where
  \<comment> \<open>the policy is cancelled on day 100, 73 days after the payment\<close>
  "cancelled_event =
     sample_event\<lparr>ID := ''e-3'', EventType := ''cancelled'',
       EventData := [(''reason'', JString ''user_request'')], Timestamp := days 100\<rparr>"

definition cancel_unmarshal :: "string \<Rightarrow> error + PolicyEvent" where
  "cancel_unmarshal v = (if v = ''cancel'' then Inr cancelled_event else failing_unmarshal v)"


definition always_done :: Context where
  \<comment> \<open>a context that every select finds cancelled\<close>
  "always_done k = Some Canceled"

definition created_unmarshal :: "string \<Rightarrow> error + PolicyEvent" where
  "created_unmarshal v = (if v = ''created'' then Inr sample_event else failing_unmarshal v)"

definition created_message :: ConsumerMessage where
  "created_message = sample_message\<lparr>Value := ''created''\<rparr>"

definition cancelled_uw_env :: uw_env where
  \<comment> \<open>the context is cancelled while the insert runs: \<open>ExecContext\<close> fails with its error\<close>
  "cancelled_uw_env = uw_env1\<lparr>uw_exec_error := Some ContextCanceled\<rparr>"

definition cancelled_pricing :: next_fn where
  \<comment> \<open>the pricing handler on a created event, its insert failing with the context's error\<close>
  "cancelled_pricing =
     call_handler (underwriting_Handle created_unmarshal no_pow marshal_ok cancelled_uw_env)"

definition bare_cancellation :: next_fn where
  \<comment> \<open>a downstream that returns the context's error as it is\<close>
  "bare_cancellation ctx message w = (Some Canceled, w)"

section \<open>Properties of the premium calculation\<close>

lemma round64_samples:
  "lit (1 / 10) = Finite (3602879701896397 / 36028797018963968)"
  "lit (13 / 10) = Finite (5854679515581645 / 4503599627370496)"
  "round64 9007199254740993 = Finite 9007199254740992"
  "round64 9007199254740995 = Finite 9007199254740996"
  "f64_mul (lit (29 / 100)) (lit 100) = Finite (8162774324609023 / 281474976710656)"
  by code_simp+

lemma step_scores:
  "snd (age_step pd st) =
     spec_apply (snd st) (spec_age_multiplier (get_float64 pd ''driver_age''))"
  "snd (experience_step pd st) =
     spec_apply (snd st) (spec_experience_multiplier (get_float64 pd ''driving_experience''))"
  "snd (car_step pd st) =
     spec_apply (snd st) (spec_car_multiplier (get_string pd ''car_type''))"
  "snd (region_step pd st) =
     spec_apply (snd st) (spec_region_multiplier (get_string pd ''region''))"
  "snd (accidents_step pw pd st) =
     spec_apply (snd st) (spec_accidents_multiplier pw (get_float64 pd ''accidents_count''))"
  by (simp_all add: age_step_def experience_step_def car_step_def region_step_def
      accidents_step_def spec_apply_def spec_age_multiplier_def spec_experience_multiplier_def
      spec_car_multiplier_def spec_region_multiplier_def spec_accidents_multiplier_def
      split: option.splits)

lemma calculatePremium_score:
  "snd (accidents_step pw pd (region_step pd (car_step pd (experience_step pd
     (age_step pd ([], lit 1)))))) = spec_risk_score pw pd"
  by (simp add: step_scores spec_risk_score_def)

lemma calculatePremium_Inr:
  assumes "calculatePremium pw marshal pd = Inr c"
  shows "BasePremium c = lit 1000" and "RiskScore c = spec_risk_score pw pd"
    and "FinalPremium c = spec_final_premium pw pd"
  using assms
  by (auto simp: calculatePremium_def Let_def calculatePremium_score spec_final_premium_def
      spec_round2_def split: sum.splits)

lemma calculatePremium_returns:
  assumes "\<forall>m. \<exists>js. marshal m = Inr js"
  shows "\<exists>c. calculatePremium pw marshal pd = Inr c"
proof -
  obtain js where "marshal (fst (accidents_step pw pd (region_step pd (car_step pd
      (experience_step pd (age_step pd ([], lit 1))))))) = Inr js"
    using assms by blast
  then show ?thesis
    by (simp add: calculatePremium_def Let_def)
qed

lemma lit_1000: "lit 1000 = Finite 1000"
  by code_simp

lemma no_input_premium: "spec_round2 (f64_mul (lit 1000) (lit 1)) = Finite 1000"
  by code_simp

lemma no_input_score:
  assumes "get_float64 pd ''driver_age'' = None" "get_float64 pd ''driving_experience'' = None"
    and "get_string pd ''car_type'' = None" "get_string pd ''region'' = None"
    and "get_float64 pd ''accidents_count'' = None"
  shows "spec_risk_score pw pd = lit 1"
  using assms
  by (simp add: spec_risk_score_def spec_apply_def spec_age_multiplier_def
      spec_experience_multiplier_def spec_car_multiplier_def spec_region_multiplier_def
      spec_accidents_multiplier_def)

lemma sample_policy_premium: "spec_final_premium pw sample_policy = Finite 1134"
  by code_simp

text \<open>
  C3. Whenever \<open>calculatePremium\<close> returns a calculation, its base premium is 1000.00,
  its risk score is the running product of the specification (start 1.0, then the
  driver_age, driving_experience, car_type, region and accidents_count multipliers in this
  order, a multiplier being skipped when its input is absent), and its final premium is
  that product times the base, rounded to two decimals with halves away from zero. It does
  return whenever serialising the risk factors succeeds. With every input absent the final
  premium is 1000.00; for age 30, 10 years of experience, sedan, moscow and no accident it
  is 1134.00.
\<close>

theorem calculatePremium_formula:
  "(\<forall>c. calculatePremium pw marshal policyData = Inr c \<longrightarrow>
        BasePremium c = Finite 1000 \<and>
        RiskScore c = spec_risk_score pw policyData \<and>
        FinalPremium c = spec_final_premium pw policyData) \<and>
   ((\<forall>m. \<exists>js. marshal m = Inr js) \<longrightarrow>
        (\<exists>c. calculatePremium pw marshal policyData = Inr c)) \<and>
   (\<forall>c. calculatePremium pw marshal policyData = Inr c \<and>
        get_float64 policyData ''driver_age'' = None \<and>
        get_float64 policyData ''driving_experience'' = None \<and>
        get_string policyData ''car_type'' = None \<and>
        get_string policyData ''region'' = None \<and>
        get_float64 policyData ''accidents_count'' = None \<longrightarrow>
        FinalPremium c = Finite 1000) \<and>
   (\<forall>c. calculatePremium pw marshal sample_policy = Inr c \<longrightarrow>
        FinalPremium c = Finite 1134)"
proof (intro conjI allI impI)
  fix c
  assume "calculatePremium pw marshal policyData = Inr c"
  then show "BasePremium c = Finite 1000" "RiskScore c = spec_risk_score pw policyData"
    "FinalPremium c = spec_final_premium pw policyData"
    by (simp_all add: calculatePremium_Inr lit_1000)
next
  assume "\<forall>m. \<exists>js. marshal m = Inr js"
  then show "\<exists>c. calculatePremium pw marshal policyData = Inr c"
    by (rule calculatePremium_returns)
next
  fix c
  assume a: "calculatePremium pw marshal policyData = Inr c \<and>
        get_float64 policyData ''driver_age'' = None \<and>
        get_float64 policyData ''driving_experience'' = None \<and>
        get_string policyData ''car_type'' = None \<and>
        get_string policyData ''region'' = None \<and>
        get_float64 policyData ''accidents_count'' = None"
  then have "spec_risk_score pw policyData = lit 1"
    by (simp add: no_input_score)
  moreover from a have "calculatePremium pw marshal policyData = Inr c"
    by simp
  then have "FinalPremium c = spec_final_premium pw policyData"
    by (rule calculatePremium_Inr(3))
  ultimately show "FinalPremium c = Finite 1000"
    by (simp add: spec_final_premium_def no_input_premium)
next
  fix c
  assume "calculatePremium pw marshal sample_policy = Inr c"
  then show "FinalPremium c = Finite 1134"
    by (simp add: calculatePremium_Inr(3) sample_policy_premium)
qed

theorem calculatePremium_formula_witness:
  "(\<exists>c. calculatePremium no_pow marshal_ok sample_policy = Inr c \<and>
        BasePremium c = Finite 1000 \<and> FinalPremium c = Finite 1134) \<and>
   (\<exists>c. calculatePremium no_pow marshal_ok [] = Inr c \<and>
        BasePremium c = Finite 1000 \<and> FinalPremium c = Finite 1000)"
proof -
  have "get_float64 [] k = None" "get_string [] k = None" for k
    by (simp_all add: get_float64_def get_string_def)
  then show ?thesis
    using calculatePremium_formula [of no_pow marshal_ok sample_policy]
      calculatePremium_formula [of no_pow marshal_ok "[]"]
    by (auto simp: marshal_ok_def)
qed

section \<open>Properties of the producer\<close>

lemma plog_fields [simp]:
  "policy_events (pdb (plog l m p)) = policy_events (pdb p)"
  "input (plog l m p) = input p"
  "ledger_ids (plog l m p) = ledger_ids p"
  by (simp_all add: plog_def logf_def ledger_ids_def)

lemma broker_answers_fields [simp]:
  "policy_events (pdb (broker_answers r p)) = policy_events (pdb p)"
  "input (broker_answers r p) = input p"
  by (simp_all add: broker_answers_def handleSuccesses_def handleErrors_def split: option.splits)

lemma fill_event_ID: "ID e \<noteq> [] \<Longrightarrow> ID (fill_event env e) = ID e"
  by (simp add: fill_event_def Let_def)

lemma fault_error_not_ErrNoRows [simp]: "fault_error f \<noteq> ErrNoRows"
  by (cases f) simp_all

lemma publish_replay:
  assumes "ID e \<in> set (ledger_ids p)" "ID e \<noteq> []"
    and "begin_error env = None" "select_error env = None"
  shows "PublishPolicyEvent me m env e p =
           (None, fill_event env e, plog Info ''Event already processed, skipping'' p)"
  using assms
  by (simp add: PublishPolicyEvent_def Let_def select_event_id_def fill_event_ID ledger_ids_def)

lemma publish_unchanged_if_present:
  assumes "ID e \<in> set (ledger_ids p)" "ID e \<noteq> []"
  shows "policy_events (pdb (snd (snd (PublishPolicyEvent me m env e p)))) = policy_events (pdb p)
       \<and> input (snd (snd (PublishPolicyEvent me m env e p))) = input p"
  using assms
  by (simp add: PublishPolicyEvent_def Let_def select_event_id_def fill_event_ID ledger_ids_def
      split: option.splits)

lemma publish_success:
  assumes "PublishPolicyEvent me m env e p = (None, e1, p1)" "ledger_ok p" "new_uuid env \<noteq> []"
  shows "e1 = fill_event env e \<and> ID e1 \<in> set (ledger_ids p1) \<and> ID e1 \<noteq> [] \<and> ledger_ok p1"
  using assms
  by (auto simp: PublishPolicyEvent_def Let_def select_event_id_def ledger_ids_def ledger_ok_def
      insert_event_def fill_event_def
      split: option.splits sum.splits if_splits)

lemma one_row_per_key:
  "distinct (map f xs) \<Longrightarrow> i \<in> set (map f xs) \<Longrightarrow> length (filter (\<lambda>r. f r = i) xs) = 1"
proof (induction xs)
  case Nil
  then show ?case by simp
next
  case (Cons x xs)
  show ?case
  proof (cases "f x = i")
    case True
    with Cons.prems have "\<forall>r\<in>set xs. f r \<noteq> i"
      by (force simp: image_iff)
    then have "filter (\<lambda>r. f r = i) xs = []"
      by (simp add: filter_empty_conv)
    with True show ?thesis by simp
  next
    case False
    with Cons show ?thesis by simp
  qed
qed

lemma sample_publish:
  "PublishPolicyEvent marshal_event_ok marshal_ok quiet_env sample_event empty_producer =
     (None, sample_event, sample_published)"
  by code_simp

text \<open>
  C1. On a ledger whose ids are distinct and non-empty (the primary key), publishing an
  envelope whose id already has a row returns nil when the transaction begins and the
  query runs, and leaves the ledger and the producer's input channel as they were: no
  second row, no second enqueue. Hence after a publish that returned nil there is exactly
  one ledger row for the envelope's id, and a second publish of the same envelope (with
  any environment) changes neither the ledger nor the input channel, and returns nil
  whenever its transaction begins and its query runs.
\<close>

theorem PublishPolicyEvent_idempotent:
  "(ledger_ok p \<and> ID e \<in> set (ledger_ids p) \<and>
    begin_error env = None \<and> select_error env = None \<longrightarrow>
      fst (PublishPolicyEvent me m env e p) = None \<and>
      policy_events (pdb (snd (snd (PublishPolicyEvent me m env e p)))) = policy_events (pdb p) \<and>
      input (snd (snd (PublishPolicyEvent me m env e p))) = input p) \<and>
   (ledger_ok p \<and> new_uuid env \<noteq> [] \<and> PublishPolicyEvent me m env e p = (None, e1, p1) \<longrightarrow>
      rows_with_id (ID e1) p1 = 1 \<and>
      policy_events (pdb (snd (snd (PublishPolicyEvent me m env2 e1 p1)))) =
        policy_events (pdb p1) \<and>
      input (snd (snd (PublishPolicyEvent me m env2 e1 p1))) = input p1 \<and>
      (begin_error env2 = None \<and> select_error env2 = None \<longrightarrow>
         fst (PublishPolicyEvent me m env2 e1 p1) = None))"
proof (intro conjI impI)
  assume a: "ledger_ok p \<and> ID e \<in> set (ledger_ids p) \<and>
    begin_error env = None \<and> select_error env = None"
  then have ne: "ID e \<noteq> []"
    by (auto simp: ledger_ok_def)
  with a have "PublishPolicyEvent me m env e p =
           (None, fill_event env e, plog Info ''Event already processed, skipping'' p)"
    by (simp add: publish_replay)
  then show "fst (PublishPolicyEvent me m env e p) = None"
    and "policy_events (pdb (snd (snd (PublishPolicyEvent me m env e p)))) = policy_events (pdb p)"
    and "input (snd (snd (PublishPolicyEvent me m env e p))) = input p"
    by simp_all
next
  assume a: "ledger_ok p \<and> new_uuid env \<noteq> [] \<and>
    PublishPolicyEvent me m env e p = (None, e1, p1)"
  then have "e1 = fill_event env e \<and> ID e1 \<in> set (ledger_ids p1) \<and> ID e1 \<noteq> [] \<and>
    ledger_ok p1"
    by (intro publish_success [of me m env e p e1 p1]) simp_all
  then have s: "ID e1 \<in> set (ledger_ids p1)" "ID e1 \<noteq> []" "ledger_ok p1"
    by blast+
  then show "rows_with_id (ID e1) p1 = 1"
    by (simp add: rows_with_id_def ledger_ok_def ledger_ids_def one_row_per_key)
  from s show "policy_events (pdb (snd (snd (PublishPolicyEvent me m env2 e1 p1)))) =
        policy_events (pdb p1)"
    and "input (snd (snd (PublishPolicyEvent me m env2 e1 p1))) = input p1"
    by (simp_all add: publish_unchanged_if_present)
  assume "begin_error env2 = None \<and> select_error env2 = None"
  with s show "fst (PublishPolicyEvent me m env2 e1 p1) = None"
    by (simp add: publish_replay)
qed

theorem PublishPolicyEvent_idempotent_witness:
  "fst (PublishPolicyEvent marshal_event_ok marshal_ok quiet_env sample_event empty_producer)
     = None \<and>
   rows_with_id ''e-1'' sample_published = 1 \<and>
   fst (PublishPolicyEvent marshal_event_ok marshal_ok quiet_env sample_event
          sample_published) = None \<and>
   policy_events (pdb (snd (snd (PublishPolicyEvent marshal_event_ok marshal_ok quiet_env
          sample_event sample_published)))) = [sample_row] \<and>
   input (snd (snd (PublishPolicyEvent marshal_event_ok marshal_ok quiet_env
          sample_event sample_published))) = [event_message sample_event ''{}'']"
proof -
  have ok: "ledger_ok empty_producer" "new_uuid quiet_env \<noteq> []"
    "begin_error quiet_env = None" "select_error quiet_env = None"
    by (simp_all add: ledger_ok_def ledger_ids_def empty_producer_def empty_store_def
        quiet_env_def)
  have ok1: "ledger_ok sample_published" "ID sample_event \<in> set (ledger_ids sample_published)"
    by (simp_all add: ledger_ok_def ledger_ids_def sample_published_def sample_row_def
        sample_event_def)
  have sel: "ID sample_event = ''e-1''" "policy_events (pdb sample_published) = [sample_row]"
    "input sample_published = [event_message sample_event ''{}'']"
    by (simp_all add: sample_event_def sample_published_def)
  show ?thesis
    using PublishPolicyEvent_idempotent [where p = empty_producer and e = sample_event
        and env = quiet_env and me = marshal_event_ok and m = marshal_ok
        and ?e1.0 = sample_event and ?p1.0 = sample_published and ?env2.0 = quiet_env]
      PublishPolicyEvent_idempotent [where p = sample_published and e = sample_event
        and env = quiet_env and me = marshal_event_ok and m = marshal_ok]
      sample_publish ok ok1 sel
    by simp
qed

text \<open>
  C2. The claim: when the broker does not acknowledge the message, publish rolls the
  transaction back and returns an error, and the ledger has no row for the id. The code
  at such an input: the broker's failure reaches \<open>handleErrors\<close> only, which logs it;
  \<open>PublishPolicyEvent\<close> sleeps, inserts the row, commits and returns nil.
\<close>

theorem PublishPolicyEvent_broker_failure:
  "PublishPolicyEvent marshal_event_ok marshal_ok nack_env sample_event empty_producer =
     (None, sample_event,
      \<lparr>pdb = \<lparr>policy_events = [sample_row], premium_calculations = [], billing_records = [],
               log = [(Error, ''Failed to send message''),
                      (Info, ''Policy event published successfully'')]\<rparr>,
       input = [event_message sample_event ''{}'']\<rparr>)"
  by code_simp

section \<open>Properties of the retry middleware\<close>

lemma retry_loop_post:
  assumes "0 \<le> a"
  shows "\<exists>new. attempts (retry_loop M d ctx msg nxt a lastErr outs ws w) = outs @ new
     \<and> int (length new) \<le> max 0 (M + 1 - a)
     \<and> waits (retry_loop M d ctx msg nxt a lastErr outs ws w)
          = ws @ replicate (length new - (if a = 0 then 1 else 0)) d
     \<and> (\<forall>out\<in>set (butlast new). \<exists>e. out = Some e \<and> isRetryableError e)
     \<and> (new = [] \<longrightarrow>
          (if a \<le> M
           then 0 < a \<and> ctx (nat a) \<noteq> None
              \<and> returned (retry_loop M d ctx msg nxt a lastErr outs ws w) = ctx (nat a)
           else returned (retry_loop M d ctx msg nxt a lastErr outs ws w)
                  = Some (FailedAfter (M + 1) lastErr)))
     \<and> (new \<noteq> [] \<longrightarrow>
          (case last new of
             None \<Rightarrow> returned (retry_loop M d ctx msg nxt a lastErr outs ws w) = None
           | Some e \<Rightarrow>
               if isRetryableError e \<and> a + int (length new) \<le> M
               then ctx (nat (a + int (length new))) \<noteq> None
                  \<and> returned (retry_loop M d ctx msg nxt a lastErr outs ws w)
                      = ctx (nat (a + int (length new)))
               else returned (retry_loop M d ctx msg nxt a lastErr outs ws w)
                      = Some (FailedAfter (M + 1) (Some e))))"
  using assms
proof (induction M d ctx msg nxt a lastErr outs ws w rule: retry_loop.induct)
  case (1 M d ctx msg nxt a lastErr outs ws w)
  let ?R = "retry_loop M d ctx msg nxt a lastErr outs ws w"
  let ?w0 = "if 0 < a then wlog Warn ''Retrying message processing'' w else w"
  let ?ws1 = "if 0 < a then ws @ [d] else ws"
  show ?case
  proof (cases "a \<le> M")
    case False
    then have "?R = \<lparr>returned = Some (FailedAfter (M + 1) lastErr), final = w,
            attempts = outs, waits = ws\<rparr>"
      by (subst retry_loop.simps) simp
    with False show ?thesis
      by (intro exI [of _ "[]"]) simp
  next
    case le: True
    show ?thesis
    proof (cases "if 0 < a then ctx (nat a) else None")
      case (Some e)
      with le have "?R = \<lparr>returned = Some e, final = ?w0, attempts = outs, waits = ws\<rparr>"
        by (subst retry_loop.simps) (simp add: Let_def)
      with le Some show ?thesis
        by (intro exI [of _ "[]"]) (auto split: if_splits)
    next
      case None
      obtain r w1 where nx: "nxt ctx msg ?w0 = (r, w1)"
        by (cases "nxt ctx msg ?w0")
      show ?thesis
      proof (cases r)
        case rNone: None
        with le None nx have "attempts ?R = outs @ [None]" "waits ?R = ?ws1" "returned ?R = None"
          by (subst retry_loop.simps, simp add: Let_def)+
        with le "1.prems" show ?thesis
          by (intro exI [of _ "[None]"]) auto
      next
        case (Some err)
        show ?thesis
        proof (cases "isRetryableError err")
          case False
          with le None nx Some have "attempts ?R = outs @ [Some err]" "waits ?R = ?ws1"
            "returned ?R = Some (FailedAfter (M + 1) (Some err))"
            by (subst retry_loop.simps, simp add: Let_def)+
          with le "1.prems" False show ?thesis
            by (intro exI [of _ "[Some err]"]) auto
        next
          case True
          let ?R' = "retry_loop M d ctx msg nxt (a + 1) (Some err) (outs @ [Some err]) ?ws1 w1"
          from le None nx Some True have eq: "?R = ?R'"
            by (subst retry_loop.simps) (simp add: Let_def)
          have "0 \<le> a + 1" using "1.prems" by simp
          from "1.IH" [OF le refl None refl nx [symmetric] Some _ this] True
          obtain new where
            n1: "attempts ?R' = (outs @ [Some err]) @ new"
            and n2: "int (length new) \<le> max 0 (M + 1 - (a + 1))"
            and n3: "waits ?R' = ?ws1 @ replicate (length new - (if a + 1 = 0 then 1 else 0)) d"
            and n4: "\<forall>out\<in>set (butlast new). \<exists>e. out = Some e \<and> isRetryableError e"
            and n5: "new = [] \<longrightarrow>
              (if a + 1 \<le> M
               then 0 < a + 1 \<and> ctx (nat (a + 1)) \<noteq> None \<and> returned ?R' = ctx (nat (a + 1))
               else returned ?R' = Some (FailedAfter (M + 1) (Some err)))"
            and n6: "new \<noteq> [] \<longrightarrow>
              (case last new of
                 None \<Rightarrow> returned ?R' = None
               | Some e \<Rightarrow>
                   if isRetryableError e \<and> a + 1 + int (length new) \<le> M
                   then ctx (nat (a + 1 + int (length new))) \<noteq> None
                      \<and> returned ?R' = ctx (nat (a + 1 + int (length new)))
                   else returned ?R' = Some (FailedAfter (M + 1) (Some e)))"
            by auto
          have a1: "attempts ?R = outs @ (Some err # new)"
            using eq n1 by simp
          have a2: "int (length (Some err # new)) \<le> max 0 (M + 1 - a)"
            using n2 le by simp
          have a3: "waits ?R = ws @ replicate (length (Some err # new) - (if a = 0 then 1 else 0)) d"
            using eq n3 "1.prems" by (auto simp: replicate_append_same)
          have a4: "\<forall>out\<in>set (butlast (Some err # new)). \<exists>e. out = Some e \<and> isRetryableError e"
            using n4 True by auto
          have a6: "case last (Some err # new) of
                 None \<Rightarrow> returned ?R = None
               | Some e \<Rightarrow>
                   if isRetryableError e \<and> a + int (length (Some err # new)) \<le> M
                   then ctx (nat (a + int (length (Some err # new)))) \<noteq> None
                      \<and> returned ?R = ctx (nat (a + int (length (Some err # new))))
                   else returned ?R = Some (FailedAfter (M + 1) (Some e))"
          proof (cases "new = []")
            case True
            with n5 eq \<open>isRetryableError err\<close> show ?thesis
              by (auto simp: add.commute split: if_splits)
          next
            case False
            have h: "a + int (length (Some err # new)) = a + 1 + int (length new)"
              by simp
            have l: "last (Some err # new) = last new"
              using False by simp
            show ?thesis
              unfolding eq h l using n6 False by blast
          qed
          show ?thesis
            using a1 a2 a3 a4 a6 by (intro exI [of _ "Some err # new"]) simp
        qed
      qed
    qed
  qed
qed


lemma isRetryableError_iff: "isRetryableError e = (e \<noteq> Canceled \<and> e \<noteq> DeadlineExceeded)"
  by (simp add: isRetryableError_def)

text \<open>
  The shape of a run of the retry middleware, in terms of what \<open>isRetryableError\<close>
  answers. The middleware returns what its loop returns. The loop calls the downstream
  at most \<open>max_retries + 1\<close> times, and completes one wait of \<open>retry_delay\<close> before each
  call after the first. Every call but the last failed with an error that
  \<open>isRetryableError\<close> accepts. When no call was made, \<open>max_retries\<close> is negative. When
  the last call succeeded the result is nil; when it failed with an error that
  \<open>isRetryableError\<close> accepts and attempts are left, the wait that followed found the
  context done and the result is the context's error; in every other case the result
  is the last error wrapped with \<open>max_retries + 1\<close>.
\<close>

lemma retry_trace_shape:
  "RetryMiddleware_Process maxRetries retryDelay ctx message nxt w =
     (returned (retry_trace maxRetries retryDelay ctx message nxt w),
      final (retry_trace maxRetries retryDelay ctx message nxt w)) \<and>
   length (attempts (retry_trace maxRetries retryDelay ctx message nxt w)) \<le> nat (maxRetries + 1) \<and>
   waits (retry_trace maxRetries retryDelay ctx message nxt w) =
     replicate (length (attempts (retry_trace maxRetries retryDelay ctx message nxt w)) - 1) retryDelay \<and>
   (\<forall>out\<in>set (butlast (attempts (retry_trace maxRetries retryDelay ctx message nxt w))).
      \<exists>e. out = Some e \<and> isRetryableError e) \<and>
   (attempts (retry_trace maxRetries retryDelay ctx message nxt w) = [] \<longrightarrow>
      maxRetries < 0 \<and>
      returned (retry_trace maxRetries retryDelay ctx message nxt w) =
        Some (FailedAfter (maxRetries + 1) None)) \<and>
   (attempts (retry_trace maxRetries retryDelay ctx message nxt w) \<noteq> [] \<longrightarrow>
      (case last (attempts (retry_trace maxRetries retryDelay ctx message nxt w)) of
         None \<Rightarrow> returned (retry_trace maxRetries retryDelay ctx message nxt w) = None
       | Some e \<Rightarrow>
           if isRetryableError e \<and>
              int (length (attempts (retry_trace maxRetries retryDelay ctx message nxt w))) \<le> maxRetries
           then ctx (length (attempts (retry_trace maxRetries retryDelay ctx message nxt w))) \<noteq> None \<and>
                returned (retry_trace maxRetries retryDelay ctx message nxt w) =
                  ctx (length (attempts (retry_trace maxRetries retryDelay ctx message nxt w)))
           else returned (retry_trace maxRetries retryDelay ctx message nxt w) =
                  Some (FailedAfter (maxRetries + 1) (Some e))))"
proof -
  let ?r = "retry_trace maxRetries retryDelay ctx message nxt w"
  note post = retry_loop_post [of 0 maxRetries retryDelay ctx message nxt None "[]" "[]" w,
      simplified, folded retry_trace_def]
  have len: "length (attempts ?r) \<le> nat (maxRetries + 1)"
    using post by linarith
  have none: "attempts ?r = [] \<longrightarrow>
      maxRetries < 0 \<and> returned ?r = Some (FailedAfter (maxRetries + 1) None)"
    using post by (auto split: if_splits)
  have last: "attempts ?r \<noteq> [] \<longrightarrow>
      (case last (attempts ?r) of
         None \<Rightarrow> returned ?r = None
       | Some e \<Rightarrow>
           if isRetryableError e \<and> int (length (attempts ?r)) \<le> maxRetries
           then ctx (length (attempts ?r)) \<noteq> None \<and> returned ?r = ctx (length (attempts ?r))
           else returned ?r = Some (FailedAfter (maxRetries + 1) (Some e)))"
    using post by (auto split: option.splits if_splits)
  show ?thesis
    using post len none last
    by (simp add: RetryMiddleware_Process_def Let_def)
qed

lemma always_failing_run:
  "attempts (retry_trace 3 2000 never_done sample_message always_failing empty_world) =
     replicate 4 (Some (ErrorString ''connection refused''))"
  "attempts (retry_trace (- 1) 2000 never_done sample_message always_failing empty_world) = []"
  "attempts (retry_trace 3 2000 always_done sample_message always_failing empty_world) =
     [Some (ErrorString ''connection refused'')]"
  by code_simp+

lemma retry_trace_shape_example:
  "attempts (retry_trace 3 2000 never_done sample_message always_failing empty_world) =
     replicate 4 (Some (ErrorString ''connection refused'')) \<and>
   waits (retry_trace 3 2000 never_done sample_message always_failing empty_world) =
     [2000, 2000, 2000] \<and>
   fst (RetryMiddleware_Process 3 2000 never_done sample_message always_failing empty_world) =
     Some (FailedAfter 4 (Some (ErrorString ''connection refused''))) \<and>
   fst (RetryMiddleware_Process (- 1) 2000 never_done sample_message always_failing empty_world) =
     Some (FailedAfter 0 None) \<and>
   waits (retry_trace 3 2000 always_done sample_message always_failing empty_world) = [] \<and>
   fst (RetryMiddleware_Process 3 2000 always_done sample_message always_failing empty_world) =
     Some Canceled"
  using retry_trace_shape [of 3 2000 never_done sample_message always_failing empty_world]
    retry_trace_shape [of "- 1" 2000 never_done sample_message always_failing empty_world]
    retry_trace_shape [of 3 2000 always_done sample_message always_failing empty_world]
  by (simp add: always_failing_run isRetryableError_def numeral_eq_Suc always_done_def)

text \<open>
  C5 fails on the code. The claim has every cancellation and deadline-exceeded error
  non-retryable. \<open>isRetryableError\<close> compares the error with the two context errors
  themselves, and every error a handler returns from a failed database call wraps its
  cause: the error of a cancelled context arrives as
  \<open>failed to save premium calculation: context canceled\<close> and is taken for retryable.
  On a created event whose insert fails because the context was cancelled, the
  middleware (3 retries, 2 s) logs a retry, enters the wait, finds the context done and
  returns the bare \<open>context.Canceled\<close>. The same cancellation returned unwrapped is
  classified as the claim says: the middleware logs that it gives up and returns the
  error wrapped with the attempt count.
\<close>

theorem RetryMiddleware_retries_wrapped_cancellation:
  "cancelled_pricing always_done created_message empty_world =
     (Some (Errorf ''failed to save premium calculation'' Canceled),
      wlog Info ''Processing underwriting event'' empty_world) \<and>
   isRetryableError (Errorf ''failed to save premium calculation'' Canceled) \<and>
   isRetryableError (Errorf ''failed to save premium calculation'' DeadlineExceeded) \<and>
   \<not> isRetryableError Canceled \<and>
   attempts (retry_trace 3 2000 always_done created_message cancelled_pricing empty_world) =
     [Some (Errorf ''failed to save premium calculation'' Canceled)] \<and>
   waits (retry_trace 3 2000 always_done created_message cancelled_pricing empty_world) = [] \<and>
   RetryMiddleware_Process 3 2000 always_done created_message cancelled_pricing empty_world =
     (Some Canceled,
      wlog Warn ''Retrying message processing''
        (wlog Info ''Processing underwriting event'' empty_world)) \<and>
   RetryMiddleware_Process 3 2000 always_done created_message bare_cancellation empty_world =
     (Some (FailedAfter 4 (Some Canceled)),
      wlog Error ''Non-retryable error, giving up'' empty_world)"
  by code_simp

section \<open>Properties of the pricing handler\<close>

lemma logf_tables [simp]:
  "policy_events (logf l m s) = policy_events s"
  "premium_calculations (logf l m s) = premium_calculations s"
  "billing_records (logf l m s) = billing_records s"
  "log (logf l m s) = log s @ [(l, m)]"
  by (simp_all add: logf_def)

lemma get_map_None:
  "(get_map m k = None) = (\<forall>obj. map_of m k \<noteq> Some (JObject obj))"
  by (auto simp: get_map_def split: option.splits jvalue.splits)

text \<open>
  C10. When the value of a message decodes to an event of type created or renewed whose
  event data has no key \<open>policy\<close> bound to a JSON object, \<open>Handle\<close> returns the error
  ``invalid policy data in event'' (not nil, as for an unknown event type) and has
  written nothing but its first log line: the three tables are as before.
\<close>

theorem underwriting_Handle_invalid_policy:
  "unmarshal (Value message) = Inr event \<and>
   (EventType event = ''created'' \<or> EventType event = ''renewed'') \<and>
   (\<forall>obj. map_of (EventData event) ''policy'' \<noteq> Some (JObject obj)) \<longrightarrow>
     underwriting_Handle unmarshal pw marshal env ctx message s =
       (Some (ErrorString ''invalid policy data in event''),
        logf Info ''Processing underwriting event'' s) \<and>
     policy_events (snd (underwriting_Handle unmarshal pw marshal env ctx message s)) =
       policy_events s \<and>
     premium_calculations (snd (underwriting_Handle unmarshal pw marshal env ctx message s)) =
       premium_calculations s \<and>
     billing_records (snd (underwriting_Handle unmarshal pw marshal env ctx message s)) =
       billing_records s"
proof (intro impI)
  assume a: "unmarshal (Value message) = Inr event \<and>
   (EventType event = ''created'' \<or> EventType event = ''renewed'') \<and>
   (\<forall>obj. map_of (EventData event) ''policy'' \<noteq> Some (JObject obj))"
  then have g: "get_map (EventData event) ''policy'' = None"
    by (simp add: get_map_None)
  from a g have "underwriting_Handle unmarshal pw marshal env ctx message s =
       (Some (ErrorString ''invalid policy data in event''),
        logf Info ''Processing underwriting event'' s)"
    by (auto simp: underwriting_Handle_def underwriting_dispatch_def Let_def
        underwriting_handlePolicyCreated_def underwriting_handlePolicyRenewed_def)
  then show "underwriting_Handle unmarshal pw marshal env ctx message s =
       (Some (ErrorString ''invalid policy data in event''),
        logf Info ''Processing underwriting event'' s) \<and>
     policy_events (snd (underwriting_Handle unmarshal pw marshal env ctx message s)) =
       policy_events s \<and>
     premium_calculations (snd (underwriting_Handle unmarshal pw marshal env ctx message s)) =
       premium_calculations s \<and>
     billing_records (snd (underwriting_Handle unmarshal pw marshal env ctx message s)) =
       billing_records s"
    by simp
qed

theorem underwriting_Handle_invalid_policy_witness:
  "underwriting_Handle some_unmarshal no_pow marshal_ok uw_env1 never_done
     (sample_message\<lparr>Value := ''no-policy''\<rparr>) empty_store =
     (Some (ErrorString ''invalid policy data in event''),
      logf Info ''Processing underwriting event'' empty_store)"
proof -
  have "some_unmarshal (Value (sample_message\<lparr>Value := ''no-policy''\<rparr>)) = Inr no_policy_event"
    by (simp add: some_unmarshal_def)
  moreover have "EventType no_policy_event = ''created''"
    by (simp add: no_policy_event_def sample_event_def)
  moreover have "\<forall>obj. map_of (EventData no_policy_event) ''policy'' \<noteq> Some (JObject obj)"
    by (simp add: no_policy_event_def)
  ultimately show ?thesis
    using underwriting_Handle_invalid_policy [of some_unmarshal
        "sample_message\<lparr>Value := ''no-policy''\<rparr>" no_policy_event no_pow marshal_ok uw_env1
        never_done empty_store]
    by simp
qed

lemma coalesce_max_upt:
  "(case map int [1..<Suc n] of [] \<Rightarrow> 0 | v # vs \<Rightarrow> fold max vs v) = int n"
proof (cases n)
  case 0
  then show ?thesis by simp
next
  case (Suc k)
  have split: "map int [1..<Suc n] = 1 # map int [Suc (Suc 0)..<Suc n]"
    using Suc by (simp add: upt_conv_Cons del: upt_Suc)
  have "fold max (map int [Suc (Suc 0)..<Suc n]) 1 = Max (set (1 # map int [Suc (Suc 0)..<Suc n]))"
    by (simp only: Max.set_eq_fold)
  also have "set (1 # map int [Suc (Suc 0)..<Suc n]) = set (map int [1..<Suc n])"
    by (simp only: split)
  also have "Max (set (map int [1..<Suc n])) = int n"
  proof (rule Max_eqI)
    show "finite (set (map int [1..<Suc n]))" by simp
    have "n \<in> set [1..<Suc n]" using Suc by (simp del: upt_Suc)
    then show "int n \<in> set (map int [1..<Suc n])" by (simp only: set_map image_eqI)
    fix y assume "y \<in> set (map int [1..<Suc n])"
    then show "y \<le> int n" by (auto simp del: upt_Suc)
  qed
  finally show ?thesis
    by (simp only: split list.case)
qed

lemma max_version_contiguous:
  assumes "versions_contiguous p s"
  shows "max_version p s = int (length (policy_versions p s))"
  using assms coalesce_max_upt [of "length (policy_versions p s)"]
  by (simp add: max_version_def versions_contiguous_def del: upt_Suc)


lemma policy_versions_cong:
  "premium_calculations s' = premium_calculations s \<Longrightarrow> policy_versions p s' = policy_versions p s"
  by (simp add: policy_versions_def)

lemma pricing_inv_unchanged:
  assumes "pricing_inv seen t s" "premium_calculations s' = premium_calculations s"
    and "seen \<subseteq> seen'" "t \<le> t'"
  shows "pricing_inv seen' t' s'"
proof -
  have "versions_contiguous p s' = versions_contiguous p s" for p
    using assms(2) by (simp add: versions_contiguous_def policy_versions_def)
  moreover have "versions_follow_time p s' = versions_follow_time p s" for p
    using assms(2) by (simp add: versions_follow_time_def)
  moreover have "\<forall>r\<in>set (premium_calculations s).
      pc_policy_id r \<in> seen' \<and> pc_calculated_at r \<le> t'"
  proof
    fix r assume "r \<in> set (premium_calculations s)"
    with assms(1) have "pc_policy_id r \<in> seen \<and> pc_calculated_at r \<le> t"
      by (simp add: pricing_inv_def)
    with assms(3,4) show "pc_policy_id r \<in> seen' \<and> pc_calculated_at r \<le> t'"
      by (simp add: subsetD)
  qed
  ultimately show ?thesis
    using assms(1,2) by (simp add: pricing_inv_def)
qed

lemma pricing_inv_append:
  assumes inv: "pricing_inv seen t s"
    and rows: "premium_calculations s' = premium_calculations s @ [r]"
    and ver: "pc_calculation_version r = int (length (policy_versions (pc_policy_id r) s)) + 1"
    and clock: "t \<le> pc_calculated_at r"
  shows "pricing_inv (insert (pc_policy_id r) seen) (pc_calculated_at r) s'"
proof -
  have cont: "\<And>p. policy_versions p s = map int [1..<Suc (length (policy_versions p s))]"
    using inv by (simp add: pricing_inv_def versions_contiguous_def)
  have old: "\<And>x. x \<in> set (premium_calculations s) \<Longrightarrow>
      pc_policy_id x \<in> seen \<and> pc_calculated_at x \<le> t"
    using inv by (simp add: pricing_inv_def)
  have small: "\<And>x. x \<in> set (premium_calculations s) \<Longrightarrow>
      pc_calculation_version x \<le> int (length (policy_versions (pc_policy_id x) s))"
  proof -
    fix x assume x: "x \<in> set (premium_calculations s)"
    then have "pc_calculation_version x \<in> set (policy_versions (pc_policy_id x) s)"
      by (auto simp: policy_versions_def)
    then have "pc_calculation_version x
        \<in> set (map int [1..<Suc (length (policy_versions (pc_policy_id x) s))])"
      using cont [of "pc_policy_id x"] by simp
    then show "pc_calculation_version x \<le> int (length (policy_versions (pc_policy_id x) s))"
      by (auto simp del: upt_Suc)
  qed
  have c: "versions_contiguous p s'" for p
  proof (cases "pc_policy_id r = p")
    case True
    have "policy_versions p s' = policy_versions p s @ [pc_calculation_version r]"
      using rows True by (simp add: policy_versions_def)
    also have "\<dots> = map int [1..<Suc (length (policy_versions p s))]
        @ [int (length (policy_versions p s)) + 1]"
      using cont [of p] ver True by simp
    also have "\<dots> = map int [1..<Suc (Suc (length (policy_versions p s)))]"
      by simp
    finally show ?thesis
      by (simp add: versions_contiguous_def del: upt_Suc)
  next
    case False
    then have "policy_versions p s' = policy_versions p s"
      using rows by (simp add: policy_versions_def)
    then show ?thesis
      using cont [of p] by (simp add: versions_contiguous_def del: upt_Suc)
  qed
  have f: "versions_follow_time p s'" for p
    unfolding versions_follow_time_def rows
  proof (intro ballI impI)
    fix r1 r2
    assume m1: "r1 \<in> set (premium_calculations s @ [r])"
      and m2: "r2 \<in> set (premium_calculations s @ [r])"
      and h: "pc_policy_id r1 = p \<and> pc_policy_id r2 = p \<and>
        pc_calculated_at r1 < pc_calculated_at r2"
    show "pc_calculation_version r1 < pc_calculation_version r2"
    proof (cases "r2 = r")
      case new2: True
      show ?thesis
      proof (cases "r1 = r")
        case True
        with new2 h show ?thesis by simp
      next
        case False
        with m1 have "r1 \<in> set (premium_calculations s)" by simp
        from small [OF this] h new2 ver show ?thesis by simp
      qed
    next
      case old2: False
      with m2 have o2: "r2 \<in> set (premium_calculations s)" by simp
      show ?thesis
      proof (cases "r1 = r")
        case True
        with old [OF o2] clock h show ?thesis by simp
      next
        case False
        with m1 have "r1 \<in> set (premium_calculations s)" by simp
        with o2 h inv show ?thesis
          by (simp add: pricing_inv_def versions_follow_time_def)
      qed
    qed
  qed
  have b: "\<forall>x\<in>set (premium_calculations s').
      pc_policy_id x \<in> insert (pc_policy_id r) seen \<and> pc_calculated_at x \<le> pc_calculated_at r"
  proof
    fix x assume "x \<in> set (premium_calculations s')"
    then have "x = r \<or> x \<in> set (premium_calculations s)"
      using rows by auto
    then show "pc_policy_id x \<in> insert (pc_policy_id r) seen \<and>
        pc_calculated_at x \<le> pc_calculated_at r"
    proof
      assume "x = r"
      then show ?thesis by simp
    next
      assume "x \<in> set (premium_calculations s)"
      from old [OF this] clock show ?thesis by simp
    qed
  qed
  from c f b show ?thesis
    by (simp add: pricing_inv_def)
qed


lemma insert_premium_Inr:
  "insert_premium env r s = Inr s1 \<Longrightarrow> premium_calculations s1 = premium_calculations s @ [r]"
  by (auto simp: insert_premium_def split: option.splits if_splits)

lemma created_rows:
  "premium_calculations (snd (underwriting_handlePolicyCreated pw marshal env ctx event s)) =
     premium_calculations s \<or>
   (\<exists>calc. premium_calculations (snd (underwriting_handlePolicyCreated pw marshal env ctx event s)) =
     premium_calculations s @ [premium_row_of env event calc 1])"
  by (auto simp: underwriting_handlePolicyCreated_def dest: insert_premium_Inr
      split: option.splits sum.splits)

lemma save_renewed_rows:
  "premium_calculations (snd (save_renewed pw marshal env event pd v s)) =
     premium_calculations s \<or>
   (\<exists>calc. premium_calculations (snd (save_renewed pw marshal env event pd v s)) =
     premium_calculations s @ [premium_row_of env event calc (v + 1)])"
  by (auto simp: save_renewed_def dest: insert_premium_Inr split: option.splits sum.splits)

lemma renewed_rows:
  "premium_calculations (snd (underwriting_handlePolicyRenewed pw marshal env ctx event s)) =
     premium_calculations s \<or>
   (\<exists>calc. premium_calculations (snd (underwriting_handlePolicyRenewed pw marshal env ctx event s)) =
     premium_calculations s @ [premium_row_of env event calc (max_version (PolicyID event) s + 1)])"
proof (cases "get_map (EventData event) ''policy''")
  case None
  then show ?thesis by (simp add: underwriting_handlePolicyRenewed_def)
next
  case (Some pd)
  show ?thesis
  proof (cases "uw_query_error env")
    case None
    with Some show ?thesis
      using save_renewed_rows [of pw marshal env event pd "max_version (PolicyID event) s" s]
      by (simp add: underwriting_handlePolicyRenewed_def select_max_version_def)
  next
    case (Some f)
    with \<open>get_map (EventData event) ''policy'' = Some pd\<close> show ?thesis
      by (cases f) (simp_all add: underwriting_handlePolicyRenewed_def select_max_version_def)
  qed
qed

lemma dispatch_rows:
  "premium_calculations (snd (underwriting_dispatch pw marshal env ctx event s)) =
     premium_calculations s \<or>
   (\<exists>calc. premium_calculations (snd (underwriting_dispatch pw marshal env ctx event s)) =
     premium_calculations s @
       [premium_row_of env event calc
          (if EventType event = ''created'' then 1 else max_version (PolicyID event) s + 1)])"
proof -
  let ?s0 = "logf Info ''Processing underwriting event'' s"
  have mv: "max_version (PolicyID event) ?s0 = max_version (PolicyID event) s"
    by (simp add: max_version_def policy_versions_def)
  show ?thesis
    using created_rows [of pw marshal env ctx event ?s0]
      renewed_rows [of pw marshal env ctx event ?s0]
    by (auto simp: underwriting_dispatch_def Let_def underwriting_handlePolicyCancelled_def mv)
qed

lemma unseen_policy_has_no_version:
  assumes "pricing_inv seen t s" "p \<notin> seen"
  shows "policy_versions p s = []"
proof -
  have "\<forall>r\<in>set (premium_calculations s). pc_policy_id r \<noteq> p"
    using assms by (auto simp: pricing_inv_def)
  then show ?thesis
    by (simp add: policy_versions_def filter_empty_conv)
qed

lemma dispatch_step:
  assumes inv: "pricing_inv seen t s"
    and first: "EventType event = ''created'' \<longrightarrow> PolicyID event \<notin> seen"
    and clock: "t \<le> uw_now env"
  shows "pricing_inv (insert (PolicyID event) seen) (uw_now env)
           (snd (underwriting_dispatch pw marshal env ctx event s))"
proof -
  let ?s' = "snd (underwriting_dispatch pw marshal env ctx event s)"
  let ?v = "if EventType event = ''created'' then 1 else max_version (PolicyID event) s + 1"
  from dispatch_rows [of pw marshal env ctx event s]
  consider "premium_calculations ?s' = premium_calculations s"
    | calc where "premium_calculations ?s' = premium_calculations s @ [premium_row_of env event calc ?v]"
    by blast
  then show ?thesis
  proof cases
    case 1
    from inv 1 show ?thesis
      by (rule pricing_inv_unchanged) (use clock in auto)
  next
    case 2
    let ?r = "premium_row_of env event calc ?v"
    have sel: "pc_policy_id ?r = PolicyID event" "pc_calculated_at ?r = uw_now env"
      "pc_calculation_version ?r = ?v"
      by (simp_all add: premium_row_of_def)
    have "?v = int (length (policy_versions (PolicyID event) s)) + 1"
    proof (cases "EventType event = ''created''")
      case True
      with first inv have "policy_versions (PolicyID event) s = []"
        by (simp add: unseen_policy_has_no_version)
      with True show ?thesis by simp
    next
      case False
      from inv have "versions_contiguous (PolicyID event) s"
        by (simp add: pricing_inv_def)
      with False show ?thesis
        by (simp add: max_version_contiguous)
    qed
    with sel have ver: "pc_calculation_version ?r = int (length (policy_versions (pc_policy_id ?r) s)) + 1"
      by simp
    from clock sel have "t \<le> pc_calculated_at ?r"
      by simp
    from pricing_inv_append [OF inv 2 ver this] sel show ?thesis
      by simp
  qed
qed

lemma pricing_run_inv:
  "pricing_inv seen t s \<Longrightarrow> created_first seen (map fst evs) \<Longrightarrow>
   sorted (t # map (\<lambda>ev. uw_now (snd ev)) evs) \<Longrightarrow>
   \<exists>seen' t'. pricing_inv seen' t' (pricing_run pw marshal ctx evs s)"
proof (induction evs arbitrary: seen t s)
  case Nil
  then show ?case by auto
next
  case (Cons ev evs)
  obtain event env where ev: "ev = (event, env)"
    by (cases ev)
  from Cons.prems ev have
    "pricing_inv (insert (PolicyID event) seen) (uw_now env)
       (snd (underwriting_dispatch pw marshal env ctx event s))"
    by (intro dispatch_step) auto
  moreover from Cons.prems ev have "created_first (insert (PolicyID event) seen) (map fst evs)"
    by simp
  moreover from Cons.prems ev have "sorted (uw_now env # map (\<lambda>ev. uw_now (snd ev)) evs)"
    by simp
  ultimately show ?case
    using Cons.IH ev by simp
qed

lemma empty_table_inv: "premium_calculations s = [] \<Longrightarrow> pricing_inv {} t s"
  by (simp add: pricing_inv_def versions_contiguous_def versions_follow_time_def
      policy_versions_def)

text \<open>
  C4, as amended. Start from an empty \<open>premium_calculations\<close> table and run the pricing
  handler over any sequence of events (created, renewed, cancelled or unknown, replays of
  renewed events included, any invocation possibly failing) in which no created event of
  a policy comes after another event of that policy, the clock readings not decreasing
  along the run. Then for every policy the versions of its rows, in insertion order, are
  \<open>1..N\<close>, and of two of its rows the one with the later \<open>calculated_at\<close> has the larger
  version.
\<close>

theorem pricing_versions_contiguous:
  "premium_calculations s = [] \<and> created_first {} (map fst evs) \<and>
   sorted (map (\<lambda>ev. uw_now (snd ev)) evs) \<longrightarrow>
     versions_contiguous policy (pricing_run pw marshal ctx evs s) \<and>
     versions_follow_time policy (pricing_run pw marshal ctx evs s)"
proof
  assume a: "premium_calculations s = [] \<and> created_first {} (map fst evs) \<and>
   sorted (map (\<lambda>ev. uw_now (snd ev)) evs)"
  define t where "t = (case evs of [] \<Rightarrow> 0 | ev # rest \<Rightarrow> uw_now (snd ev))"
  have "sorted (t # map (\<lambda>ev. uw_now (snd ev)) evs)"
    using a by (cases evs) (auto simp: t_def)
  moreover from a have "pricing_inv {} t s"
    by (simp add: empty_table_inv)
  ultimately obtain seen' t' where "pricing_inv seen' t' (pricing_run pw marshal ctx evs s)"
    using a pricing_run_inv by blast
  then show "versions_contiguous policy (pricing_run pw marshal ctx evs s) \<and>
     versions_follow_time policy (pricing_run pw marshal ctx evs s)"
    by (simp add: pricing_inv_def)
qed

lemma created_renewed_run:
  "policy_versions ''p-1''
     (pricing_run no_pow marshal_ok never_done
        [(sample_event, uw_env1), (renewed_event, uw_env2)] empty_store) = [1, 2]"
  by code_simp

theorem pricing_versions_contiguous_witness:
  "versions_contiguous ''p-1''
     (pricing_run no_pow marshal_ok never_done
        [(sample_event, uw_env1), (renewed_event, uw_env2)] empty_store) \<and>
   policy_versions ''p-1''
     (pricing_run no_pow marshal_ok never_done
        [(sample_event, uw_env1), (renewed_event, uw_env2)] empty_store) = [1, 2]"
proof -
  have "premium_calculations empty_store = []"
    by (simp add: empty_store_def)
  moreover have "created_first {} (map fst [(sample_event, uw_env1), (renewed_event, uw_env2)])"
    by (simp add: renewed_event_def sample_event_def)
  moreover have "sorted (map (\<lambda>ev. uw_now (snd ev)) [(sample_event, uw_env1), (renewed_event, uw_env2)])"
    by (simp add: uw_env1_def uw_env2_def)
  ultimately show ?thesis
    using pricing_versions_contiguous [of empty_store
        "[(sample_event, uw_env1), (renewed_event, uw_env2)]" "''p-1''" no_pow marshal_ok never_done]
      created_renewed_run
    by simp
qed

text \<open>
  C4, as stated, fails: a created event delivered twice for the same policy leaves two
  rows of version 1.
\<close>

theorem created_twice_versions:
  "policy_versions ''p-1''
     (pricing_run no_pow marshal_ok never_done
        [(sample_event, uw_env1), (sample_event, uw_env2)] empty_store) = [1, 1] \<and>
   \<not> versions_contiguous ''p-1''
     (pricing_run no_pow marshal_ok never_done
        [(sample_event, uw_env1), (sample_event, uw_env2)] empty_store)"
  by code_simp

section \<open>Properties of the consumer\<close>

lemma retry_loop_preserves:
  assumes "\<And>l m w. f (wlog l m w) = f w"
    and "\<And>w. f (snd (nxt ctx msg w)) = f w"
  shows "f (final (retry_loop M d ctx msg nxt a lastErr outs ws w)) = f w"
  using assms
proof (induction M d ctx msg nxt a lastErr outs ws w rule: retry_loop.induct)
  case (1 M d ctx msg nxt a lastErr outs ws w)
  let ?w0 = "if 0 < a then wlog Warn ''Retrying message processing'' w else w"
  have w0: "f ?w0 = f w"
    using "1.prems"(1) by simp
  obtain r w1 where nx: "nxt ctx msg ?w0 = (r, w1)"
    by (cases "nxt ctx msg ?w0")
  have w1: "f w1 = f w"
    using "1.prems"(2) [of ?w0] nx w0 by simp
  show ?case
  proof (cases "a \<le> M \<and> (if 0 < a then ctx (nat a) else None) = None \<and>
      (\<exists>err. r = Some err \<and> isRetryableError err)")
    case True
    then obtain err where err: "r = Some err" "isRetryableError err"
      by blast
    from True err nx have "retry_loop M d ctx msg nxt a lastErr outs ws w =
      retry_loop M d ctx msg nxt (a + 1) (Some err) (outs @ [Some err])
        (if 0 < a then ws @ [d] else ws) w1"
      by (subst retry_loop.simps) (simp add: Let_def)
    moreover from True have le: "a \<le> M" and cn: "(if 0 < a then ctx (nat a) else None) = None"
      by simp_all
    have "f (final (retry_loop M d ctx msg nxt (a + 1) (Some err) (outs @ [Some err])
        (if 0 < a then ws @ [d] else ws) w1)) = f w1"
      using "1.IH" [OF le refl cn refl nx [symmetric] err(1) _ "1.prems"] err(2) by simp
    ultimately show ?thesis
      using w1 by simp
  next
    case False
    then show ?thesis
      using nx w0 w1 "1.prems"(1)
      by (subst retry_loop.simps) (auto simp: Let_def split: option.splits)
  qed
qed

lemma Process_preserves:
  assumes lg: "\<And>l m w. f (wlog l m w) = f w"
    and c1: "\<And>w n. f (w\<lparr>ProcessingTime := n\<rparr>) = f w"
    and c2: "\<And>w n. f (w\<lparr>Errors := n\<rparr>) = f w"
    and c3: "\<And>w n. f (w\<lparr>MessagesProcessed := n\<rparr>) = f w"
    and nx: "\<And>w. f (snd (nxt ctx msg w)) = f w"
  shows "f (snd (Process mw ctx msg nxt w)) = f w"
proof (cases mw)
  case LoggingMiddleware
  obtain r w1 where n: "nxt ctx msg (wlog Debug ''Processing message'' w) = (r, w1)"
    by (cases "nxt ctx msg (wlog Debug ''Processing message'' w)")
  with nx [of "wlog Debug ''Processing message'' w"] have "f w1 = f w"
    by (simp add: lg)
  with n LoggingMiddleware show ?thesis
    by (cases r) (simp_all add: LoggingMiddleware_Process_def lg)
next
  case MetricsMiddleware
  obtain r w1 where n: "nxt ctx msg w = (r, w1)"
    by (cases "nxt ctx msg w")
  with nx [of w] have "f w1 = f w"
    by simp
  with n MetricsMiddleware show ?thesis
    by (cases r) (simp_all add: MetricsMiddleware_Process_def Let_def c1 c2 c3)
next
  case (RetryMiddleware M d)
  then show ?thesis
    using retry_loop_preserves [of f nxt ctx msg M d 0 None "[]" "[]" w, OF lg nx]
    by (simp add: RetryMiddleware_Process_def retry_trace_def Let_def)
qed

lemma chain_preserves:
  assumes lg: "\<And>l m w. f (wlog l m w) = f w"
    and c1: "\<And>w n. f (w\<lparr>ProcessingTime := n\<rparr>) = f w"
    and c2: "\<And>w n. f (w\<lparr>Errors := n\<rparr>) = f w"
    and c3: "\<And>w n. f (w\<lparr>MessagesProcessed := n\<rparr>) = f w"
  shows "(\<And>w. f (snd (nxt ctx msg w)) = f w) \<Longrightarrow>
    f (snd (fold (\<lambda>middleware currentNext. (\<lambda>ctx msg. Process middleware ctx msg currentNext))
         mws nxt ctx msg w)) = f w"
proof (induction mws arbitrary: nxt w)
  case Nil
  then show ?case by simp
next
  case (Cons mw mws)
  have "\<And>w. f (snd (Process mw ctx msg nxt w)) = f w"
    using Process_preserves [of f nxt ctx msg mw, OF lg c1 c2 c3 Cons.prems] by simp
  from Cons.IH [of "\<lambda>ctx msg. Process mw ctx msg nxt", OF this] show ?case
    by simp
qed

lemma processMessage_marked: "marked (snd (processMessage c ctx msg w)) = marked w"
  unfolding processMessage_def
  by (rule chain_preserves) (simp_all add: wlog_def call_handler_def split: prod.splits)

lemma processMessage_dlq: "dlq (snd (processMessage c ctx msg w)) = dlq w"
  unfolding processMessage_def
  by (rule chain_preserves) (simp_all add: wlog_def call_handler_def split: prod.splits)

lemma sendToDLQ_marked: "marked (sendToDLQ c env m e w) = marked w"
  by (simp add: sendToDLQ_def Let_def wlog_def split: option.splits)

lemma consume_one_marked:
  "marked (consume_one c ctx message env w) =
     marked w @ [(Topic message, Partition message, Offset message + 1)]"
proof -
  obtain err w1 where p: "processMessage c ctx message w = (err, w1)"
    by (cases "processMessage c ctx message w")
  then have "marked w1 = marked w"
    using processMessage_marked [of c ctx message w] by simp
  with p show ?thesis
    by (cases err) (simp_all add: consume_one_def Let_def MarkOffset_def sendToDLQ_marked wlog_def)
qed

text \<open>
  C7. Processing one delivered message adds exactly one mark to the session, for the
  message's topic and partition at its offset plus one (in int64 arithmetic), whatever the
  middleware chain returned, whether or not a DLQ topic is configured and whether or not
  the DLQ send succeeded. Over the items its select yields, \<open>ConsumeClaim\<close> marks in
  order exactly the messages delivered before it returns.
\<close>

theorem ConsumeClaim_marks_offsets:
  "marked (consume_one c ctx message env w) =
     marked w @ [(Topic message, Partition message, Offset message + 1)] \<and>
   marked (snd (ConsumeClaim c ctx events w)) =
     marked w @ map (\<lambda>m. (Topic m, Partition m, Offset m + 1)) (delivered events)"
proof
  show "marked (consume_one c ctx message env w) =
     marked w @ [(Topic message, Partition message, Offset message + 1)]"
    by (rule consume_one_marked)
  show "marked (snd (ConsumeClaim c ctx events w)) =
     marked w @ map (\<lambda>m. (Topic m, Partition m, Offset m + 1)) (delivered events)"
  proof (induction events arbitrary: w)
    case Nil
    then show ?case by simp
  next
    case (Cons ev events)
    then show ?case
      by (cases ev) (simp_all add: consume_one_marked)
  qed
qed

section \<open>Decoding failures in the consumer\<close>

lemma retry_loop_always_failing:
  assumes "\<And>w. nxt ctx msg w = (Some e, w)" "isRetryableError e" "\<And>k. ctx k = None"
    and "a \<le> M + 1"
  shows "attempts (retry_loop M d ctx msg nxt a lastErr outs ws w) =
           outs @ replicate (nat (M + 1 - a)) (Some e) \<and>
         returned (retry_loop M d ctx msg nxt a lastErr outs ws w) =
           Some (FailedAfter (M + 1) (if a \<le> M then Some e else lastErr))"
  using assms
proof (induction M d ctx msg nxt a lastErr outs ws w rule: retry_loop.induct)
  case (1 M d ctx msg nxt a lastErr outs ws w)
  let ?w0 = "if 0 < a then wlog Warn ''Retrying message processing'' w else w"
  show ?case
  proof (cases "a \<le> M")
    case False
    with "1.prems" have "a = M + 1" by simp
    then show ?thesis
      by (subst (1 2) retry_loop.simps) simp
  next
    case le: True
    have cn: "(if 0 < a then ctx (nat a) else None) = None"
      using "1.prems"(3) by simp
    have nx: "(Some e, ?w0) = nxt ctx msg ?w0"
      using "1.prems"(1) by simp
    have step: "retry_loop M d ctx msg nxt a lastErr outs ws w =
      retry_loop M d ctx msg nxt (a + 1) (Some e) (outs @ [Some e])
        (if 0 < a then ws @ [d] else ws) ?w0"
      using le cn "1.prems"(1,2) by (subst retry_loop.simps) (simp add: Let_def)
    have "a + 1 \<le> M + 1" using le by simp
    from "1.IH" [OF le refl cn refl nx refl _ "1.prems"(1,2,3) this] "1.prems"(2)
    have ih: "attempts (retry_loop M d ctx msg nxt (a + 1) (Some e) (outs @ [Some e])
          (if 0 < a then ws @ [d] else ws) ?w0) =
          (outs @ [Some e]) @ replicate (nat (M + 1 - (a + 1))) (Some e) \<and>
        returned (retry_loop M d ctx msg nxt (a + 1) (Some e) (outs @ [Some e])
          (if 0 < a then ws @ [d] else ws) ?w0) =
          Some (FailedAfter (M + 1) (if a + 1 \<le> M then Some e else Some e))"
      by simp
    have "nat (M + 1 - a) = Suc (nat (M + 1 - (a + 1)))"
      using le by simp
    with ih step le show ?thesis
      by (simp add: replicate_append_same)
  qed
qed

lemma Logging_fst:
  "fst (LoggingMiddleware_Process ctx msg nxt w) =
     fst (nxt ctx msg (wlog Debug ''Processing message'' w))"
  by (simp add: LoggingMiddleware_Process_def split: prod.splits option.splits)

lemma Metrics_fst: "fst (MetricsMiddleware_Process ctx msg nxt w) = fst (nxt ctx msg w)"
  by (simp add: MetricsMiddleware_Process_def Let_def split: prod.splits)

lemma NewConsumer_Inr:
  "NewConsumer None cfg h = Inr c \<Longrightarrow>
     config c = cfg \<and> handler c = h \<and>
     middlewares c = [LoggingMiddleware, MetricsMiddleware,
                      RetryMiddleware (RetryAttempts cfg) (RetryDelay cfg)]"
  by (auto simp: NewConsumer_def Use_def)

lemma default_chain_result:
  assumes "NewConsumer None cfg h = Inr c"
  shows "fst (processMessage c ctx msg w) =
     returned (retry_trace (RetryAttempts cfg) (RetryDelay cfg) ctx msg (call_handler h)
       (wlog Debug ''Processing message'' w))"
  using NewConsumer_Inr [OF assms]
  by (simp add: processMessage_def Logging_fst Metrics_fst RetryMiddleware_Process_def Let_def)

lemma Handle_decode_failure:
  "unmarshal (Value message) = Inl err \<Longrightarrow>
     underwriting_Handle unmarshal pw marshal env ctx message s =
       (Some (Errorf ''failed to unmarshal event'' err), s)"
  by (simp add: underwriting_Handle_def)

lemma call_handler_decode_failure:
  "unmarshal (Value message) = Inl err \<Longrightarrow>
     call_handler (underwriting_Handle unmarshal pw marshal env) ctx message w =
       (Some (Errorf ''failed to unmarshal event'' err), w)"
  by (simp add: call_handler_def Handle_decode_failure)

lemma processMessage_tables:
  assumes "\<And>s. snd (handler c ctx msg s) = s"
  shows "tables (db (snd (processMessage c ctx msg w))) = tables (db w)"
  unfolding processMessage_def
proof (rule chain_preserves [where f = "\<lambda>w. tables (db w)"])
  fix v :: world
  obtain r s where h: "handler c ctx msg (db v) = (r, s)"
    by (cases "handler c ctx msg (db v)")
  with assms [of "db v"] have "s = db v" by simp
  with h show "tables (db (snd (call_handler (handler c) ctx msg v))) = tables (db v)"
    by (simp add: call_handler_def)
qed (simp_all add: wlog_def logf_def tables_def)


lemma sendToDLQ_tables: "tables (db (sendToDLQ c env m e w)) = tables (db w)"
  by (simp add: sendToDLQ_def Let_def wlog_def logf_def tables_def split: option.splits)

lemma sendToDLQ_dlq:
  "dlq_marshal_error env = None \<Longrightarrow> dlq_send_error env = None \<Longrightarrow>
   dlq (sendToDLQ c env m e w) =
     dlq w @ [(DLQTopic (config c), Key m,
               \<lparr>OriginalTopic = Topic m, OriginalPartition = Partition m,
                OriginalOffset = Offset m, OriginalKey = Key m, OriginalValue = Value m,
                ProcessingError = e, dlq_Timestamp = dlq_now env\<rparr>)]"
  by (simp add: sendToDLQ_def Let_def wlog_def)

text \<open>
  C6, as amended. When the value of a message does not decode, the pricing handler returns
  the decoding error wrapped by \<open>fmt.Errorf\<close> and leaves the store as it was. That error
  is retryable. So with the consumer that \<open>NewConsumer\<close> builds, \<open>max_retries\<close> not
  negative and the context never done, the retry middleware calls the handler
  \<open>max_retries + 1\<close> times and the chain returns the error wrapped with that count; the
  consumer then writes nothing to the tables and, when a DLQ topic is configured and the
  send succeeds, sends exactly one DLQ message carrying the original message and that
  error.
\<close>

theorem decode_failure_is_retried:
  "unmarshal (Value message) = Inl err \<and> 0 \<le> RetryAttempts cfg \<and> (\<forall>k. ctx k = None) \<and>
   NewConsumer None cfg (underwriting_Handle unmarshal pw marshal env) = Inr c \<longrightarrow>
     underwriting_Handle unmarshal pw marshal env ctx message s =
       (Some (Errorf ''failed to unmarshal event'' err), s) \<and>
     isRetryableError (Errorf ''failed to unmarshal event'' err) \<and>
     attempts (retry_trace (RetryAttempts cfg) (RetryDelay cfg) ctx message
                 (call_handler (underwriting_Handle unmarshal pw marshal env)) w) =
       replicate (nat (RetryAttempts cfg + 1)) (Some (Errorf ''failed to unmarshal event'' err)) \<and>
     fst (processMessage c ctx message w) =
       Some (FailedAfter (RetryAttempts cfg + 1)
               (Some (Errorf ''failed to unmarshal event'' err))) \<and>
     tables (db (consume_one c ctx message denv w)) = tables (db w) \<and>
     (DLQTopic cfg \<noteq> [] \<and> dlq_marshal_error denv = None \<and> dlq_send_error denv = None \<longrightarrow>
        dlq (consume_one c ctx message denv w) =
          dlq w @ [(DLQTopic cfg, Key message,
                    \<lparr>OriginalTopic = Topic message, OriginalPartition = Partition message,
                     OriginalOffset = Offset message, OriginalKey = Key message,
                     OriginalValue = Value message,
                     ProcessingError =
                       FailedAfter (RetryAttempts cfg + 1)
                         (Some (Errorf ''failed to unmarshal event'' err)),
                     dlq_Timestamp = dlq_now denv\<rparr>)])"
proof (intro impI)
  let ?e = "Errorf ''failed to unmarshal event'' err"
  let ?h = "underwriting_Handle unmarshal pw marshal env"
  let ?final = "FailedAfter (RetryAttempts cfg + 1) (Some ?e)"
  assume a: "unmarshal (Value message) = Inl err \<and> 0 \<le> RetryAttempts cfg \<and>
    (\<forall>k. ctx k = None) \<and> NewConsumer None cfg ?h = Inr c"
  then have c: "config c = cfg" "handler c = ?h"
    using NewConsumer_Inr [of cfg ?h c] by simp_all
  have h: "?h ctx message s = (Some ?e, s)" for s
    using a by (simp add: Handle_decode_failure)
  have nx: "call_handler ?h ctx message v = (Some ?e, v)" for v
    using a by (simp add: call_handler_decode_failure)
  have re: "isRetryableError ?e"
    by (simp add: isRetryableError_def)
  have loop: "attempts (retry_trace (RetryAttempts cfg) (RetryDelay cfg) ctx message
        (call_handler ?h) v) = replicate (nat (RetryAttempts cfg + 1)) (Some ?e) \<and>
      returned (retry_trace (RetryAttempts cfg) (RetryDelay cfg) ctx message
        (call_handler ?h) v) = Some ?final" for v
    using retry_loop_always_failing [of "call_handler ?h" ctx message ?e 0 "RetryAttempts cfg"
        "RetryDelay cfg" None "[]" "[]" v] nx re a
    by (simp add: retry_trace_def)
  have res: "fst (processMessage c ctx message w) = Some ?final"
    using default_chain_result [of cfg ?h c ctx message w] a loop by simp
  obtain w1 where p: "processMessage c ctx message w = (Some ?final, w1)"
    using res by (cases "processMessage c ctx message w") simp
  have t1: "tables (db w1) = tables (db w)"
    using processMessage_tables [of c ctx message w] p c h by simp
  have d1: "dlq w1 = dlq w"
    using processMessage_dlq [of c ctx message w] p by simp
  have one: "consume_one c ctx message denv w =
      MarkOffset (Topic message) (Partition message) (Offset message + 1)
        (if DLQTopic cfg \<noteq> []
         then sendToDLQ c denv message ?final (wlog Error ''Failed to process message'' w1)
         else wlog Error ''Failed to process message'' w1)"
    using p c by (simp add: consume_one_def Let_def)
  have t: "tables (db (consume_one c ctx message denv w)) = tables (db w)"
    unfolding one using t1
    by (simp add: MarkOffset_def sendToDLQ_tables) (simp add: wlog_def logf_def tables_def)
  have d: "dlq (consume_one c ctx message denv w) =
          dlq w @ [(DLQTopic cfg, Key message,
                    \<lparr>OriginalTopic = Topic message, OriginalPartition = Partition message,
                     OriginalOffset = Offset message, OriginalKey = Key message,
                     OriginalValue = Value message, ProcessingError = ?final,
                     dlq_Timestamp = dlq_now denv\<rparr>)]"
    if "DLQTopic cfg \<noteq> [] \<and> dlq_marshal_error denv = None \<and> dlq_send_error denv = None"
    unfolding one using that d1 c
    by (simp add: MarkOffset_def sendToDLQ_dlq) (simp add: wlog_def)
  show "?h ctx message s = (Some ?e, s) \<and> isRetryableError ?e \<and>
     attempts (retry_trace (RetryAttempts cfg) (RetryDelay cfg) ctx message (call_handler ?h) w) =
       replicate (nat (RetryAttempts cfg + 1)) (Some ?e) \<and>
     fst (processMessage c ctx message w) = Some ?final \<and>
     tables (db (consume_one c ctx message denv w)) = tables (db w) \<and>
     (DLQTopic cfg \<noteq> [] \<and> dlq_marshal_error denv = None \<and> dlq_send_error denv = None \<longrightarrow>
        dlq (consume_one c ctx message denv w) =
          dlq w @ [(DLQTopic cfg, Key message,
                    \<lparr>OriginalTopic = Topic message, OriginalPartition = Partition message,
                     OriginalOffset = Offset message, OriginalKey = Key message,
                     OriginalValue = Value message, ProcessingError = ?final,
                     dlq_Timestamp = dlq_now denv\<rparr>)])"
    using h re loop res t d by blast
qed

theorem decode_failure_is_retried_witness:
  "fst (processMessage sample_consumer never_done sample_message empty_world) =
     Some (FailedAfter 4 (Some decode_error)) \<and>
   attempts (retry_trace 3 2000 never_done sample_message
               (call_handler (underwriting_Handle failing_unmarshal no_pow marshal_ok uw_env1))
               empty_world) = replicate 4 (Some decode_error) \<and>
   tables (db (consume_one sample_consumer never_done sample_message quiet_dlq empty_world)) =
     tables empty_store \<and>
   map fst (dlq (consume_one sample_consumer never_done sample_message quiet_dlq empty_world)) =
     [''auto.events.dlq'']"
proof -
  have "failing_unmarshal (Value sample_message) =
      Inl (ErrorString ''invalid character 'o' in literal null'')"
    by (simp add: failing_unmarshal_def)
  moreover have "NewConsumer None sample_config
      (underwriting_Handle failing_unmarshal no_pow marshal_ok uw_env1) = Inr sample_consumer"
    by (simp add: NewConsumer_def Use_def sample_consumer_def sample_config_def)
  moreover have "0 \<le> RetryAttempts sample_config" "RetryAttempts sample_config = 3"
    "RetryDelay sample_config = 2000" "DLQTopic sample_config = ''auto.events.dlq''"
    "\<forall>k. never_done k = None" "dlq_marshal_error quiet_dlq = None"
    "dlq_send_error quiet_dlq = None" "db empty_world = empty_store" "dlq empty_world = []"
    by (simp_all add: sample_config_def never_done_def quiet_dlq_def empty_world_def)
  ultimately show ?thesis
    using decode_failure_is_retried [of failing_unmarshal sample_message
        "ErrorString ''invalid character 'o' in literal null''" sample_config never_done
        no_pow marshal_ok uw_env1 sample_consumer empty_store empty_world quiet_dlq]
    by (simp add: decode_error_def)
qed

text \<open>
  C6, as stated, fails: for the value \<open>not-json\<close> and three retries configured, the
  error the handler returns is retryable, and the retry middleware calls the handler four
  times, waiting three times, before the message can reach the DLQ.
\<close>

theorem decode_failure_retried_example:
  "underwriting_Handle failing_unmarshal no_pow marshal_ok uw_env1 never_done sample_message
     empty_store = (Some decode_error, empty_store) \<and>
   isRetryableError decode_error \<and>
   attempts (retry_trace 3 2000 never_done sample_message
               (call_handler (underwriting_Handle failing_unmarshal no_pow marshal_ok uw_env1))
               empty_world) =
     [Some decode_error, Some decode_error, Some decode_error, Some decode_error] \<and>
   waits (retry_trace 3 2000 never_done sample_message
               (call_handler (underwriting_Handle failing_unmarshal no_pow marshal_ok uw_env1))
               empty_world) = [2000, 2000, 2000]"
  by code_simp

section \<open>Properties of the billing handler\<close>







lemma last_paid_premium_logf [simp]:
  "last_paid_premium p (logf l m s) = last_paid_premium p s"
  by (simp add: last_paid_premium_def)









lemma saveBillingRecord_inv:
  assumes "paid_at_iff_paid s" "(PaidAt rcd \<noteq> None) = (Status rcd = ''paid'')"
  shows "paid_at_iff_paid (snd (saveBillingRecord env rcd s))"
  using assms
  by (auto simp: saveBillingRecord_def paid_at_iff_paid_def Let_def split: option.splits)

lemma processRefund_inv:
  assumes "paid_at_iff_paid s"
  shows "paid_at_iff_paid (snd (snd (processRefund env record s)))"
  using assms
  by (auto simp: processRefund_def paid_at_iff_paid_def split: option.splits)

lemma logf_inv [simp]: "paid_at_iff_paid (logf l m s) = paid_at_iff_paid s"
  by (simp add: paid_at_iff_paid_def logf_def)

lemma premium_record_pending:
  "(PaidAt (premium_record env event p n) \<noteq> None) = (Status (premium_record env event p n) = ''paid'')"
  by (simp add: premium_record_def)

lemma refund_record_pending:
  "(PaidAt (refund_record env event r) \<noteq> None) = (Status (refund_record env event r) = ''paid'')"
  by (simp add: refund_record_def)

lemma created_inv:
  assumes "paid_at_iff_paid s"
  shows "paid_at_iff_paid (snd (billing_handlePolicyCreated env ctx event s))"
proof (cases "select_final_premium env (PolicyID event) s")
  case (Inl err)
  with assms show ?thesis
    by (simp add: billing_handlePolicyCreated_def)
next
  case (Inr p)
  obtain r s1 where sv: "saveBillingRecord env (premium_record env event p 30) s = (r, s1)"
    by (cases "saveBillingRecord env (premium_record env event p 30) s")
  with saveBillingRecord_inv [where rcd = "premium_record env event p 30" and env = env,
      OF assms premium_record_pending]
  have "paid_at_iff_paid s1" by simp
  with Inr sv show ?thesis
    by (cases r) (simp_all add: billing_handlePolicyCreated_def Let_def sendPaymentNotification_def)
qed

lemma renewed_inv:
  assumes "paid_at_iff_paid s"
  shows "paid_at_iff_paid (snd (billing_handlePolicyRenewed env ctx event s))"
proof (cases "select_final_premium env (PolicyID event) s")
  case (Inl err)
  with assms show ?thesis
    by (simp add: billing_handlePolicyRenewed_def)
next
  case (Inr p)
  obtain r s1 where sv: "saveBillingRecord env (premium_record env event p 15) s = (r, s1)"
    by (cases "saveBillingRecord env (premium_record env event p 15) s")
  with saveBillingRecord_inv [where rcd = "premium_record env event p 15" and env = env,
      OF assms premium_record_pending]
  have "paid_at_iff_paid s1" by simp
  with Inr sv show ?thesis
    by (cases r) (simp_all add: billing_handlePolicyRenewed_def Let_def sendPaymentNotification_def)
qed

lemma cancelled_inv:
  assumes "paid_at_iff_paid s"
  shows "paid_at_iff_paid (snd (billing_handlePolicyCancelled env ctx event s))"
proof (cases "select_last_paid env (PolicyID event) s")
  case (Inl err)
  with assms show ?thesis
    by (simp add: billing_handlePolicyCancelled_def)
next
  case (Inr row)
  define refund where "refund = calculateRefund (br_amount row)
      (case br_paid_at row of None \<Rightarrow> 0 | Some t \<Rightarrow> t) (Timestamp event)"
  obtain r s1 where sv: "saveBillingRecord env (refund_record env event refund) s = (r, s1)"
    by (cases "saveBillingRecord env (refund_record env event refund) s")
  with saveBillingRecord_inv [where rcd = "refund_record env event refund" and env = env,
      OF assms refund_record_pending]
  have i1: "paid_at_iff_paid s1" by simp
  obtain r2 rec2 s2 where pr: "processRefund env (refund_record env event refund) s1 = (r2, rec2, s2)"
    by (cases "processRefund env (refund_record env event refund) s1")
  with processRefund_inv [OF i1, of env "refund_record env event refund"]
  have i2: "paid_at_iff_paid s2" by simp
  from Inr sv pr assms i1 i2 show ?thesis
    by (cases r; cases r2)
      (simp_all add: billing_handlePolicyCancelled_def Let_def refund_def)
qed

text \<open>
  C9. If in every row of \<open>billing_records\<close> \<open>paid_at\<close> is non-null exactly when the
  status is paid, the same holds after the insert of a premium record, after the insert
  of a refund record, after the refund's status update, and after any call of the
  billing handler's \<open>Handle\<close>.
\<close>

theorem billing_keeps_paid_at_iff_paid:
  "(paid_at_iff_paid s \<longrightarrow>
      paid_at_iff_paid (snd (saveBillingRecord env (premium_record env event premium n) s))) \<and>
   (paid_at_iff_paid s \<longrightarrow>
      paid_at_iff_paid (snd (saveBillingRecord env (refund_record env event refund) s))) \<and>
   (paid_at_iff_paid s \<longrightarrow> paid_at_iff_paid (snd (snd (processRefund env record s)))) \<and>
   (paid_at_iff_paid s \<longrightarrow> paid_at_iff_paid (snd (billing_Handle unmarshal env ctx message s)))"
proof (intro conjI impI)
  assume i: "paid_at_iff_paid s"
  show "paid_at_iff_paid (snd (saveBillingRecord env (premium_record env event premium n) s))"
    using i premium_record_pending by (rule saveBillingRecord_inv)
  show "paid_at_iff_paid (snd (saveBillingRecord env (refund_record env event refund) s))"
    using i refund_record_pending by (rule saveBillingRecord_inv)
  show "paid_at_iff_paid (snd (snd (processRefund env record s)))"
    using i by (rule processRefund_inv)
  show "paid_at_iff_paid (snd (billing_Handle unmarshal env ctx message s))"
  proof (cases "unmarshal (Value message)")
    case (Inl err)
    with i show ?thesis by (simp add: billing_Handle_def)
  next
    case (Inr ev)
    have "paid_at_iff_paid (logf Info ''Processing billing event'' s)"
      using i by simp
    then have "paid_at_iff_paid (snd (billing_dispatch env ctx ev s))"
      by (simp add: billing_dispatch_def Let_def created_inv renewed_inv cancelled_inv)
    with Inr show ?thesis by (simp add: billing_Handle_def)
  qed
qed

theorem billing_keeps_paid_at_iff_paid_witness:
  "paid_at_iff_paid billed_store \<and>
   paid_at_iff_paid
     (snd (saveBillingRecord bill_env1 (premium_record bill_env1 sample_event (Finite 1134) 30)
             billed_store)) \<and>
   paid_at_iff_paid
     (snd (saveBillingRecord bill_env1 (refund_record bill_env1 cancelled_event (Finite 960))
             billed_store)) \<and>
   paid_at_iff_paid
     (snd (snd (processRefund bill_env1 (refund_record bill_env1 cancelled_event (Finite 960))
             billed_store))) \<and>
   paid_at_iff_paid
     (snd (billing_Handle cancel_unmarshal bill_env1 never_done
             (sample_message\<lparr>Value := ''cancel''\<rparr>) billed_store))"
proof -
  have "paid_at_iff_paid billed_store"
    by (simp add: paid_at_iff_paid_def billed_store_def paid_premium_def)
  then show ?thesis
    using billing_keeps_paid_at_iff_paid [of billed_store bill_env1 sample_event "Finite 1134" 30
        "Finite 960" "refund_record bill_env1 cancelled_event (Finite 960)" cancel_unmarshal
        never_done "sample_message\<lparr>Value := ''cancel''\<rparr>"]
      billing_keeps_paid_at_iff_paid [of billed_store bill_env1 cancelled_event "Finite 1134" 30
        "Finite 960" "refund_record bill_env1 cancelled_event (Finite 960)" cancel_unmarshal
        never_done "sample_message\<lparr>Value := ''cancel''\<rparr>"]
    by simp
qed

end
